theory Spec2Isabelle
  imports Complex_Main "HOL-Library.Log_Nat" "HOL-Library.Sublist"
begin

section \<open>Errors\<close>

text \<open>
  The calculator (\<^verbatim>\<open>src/scripts/calculator.js\<close>) signals failure by throwing.
  \<^item> \<open>InvalidExpression\<close> is \<^verbatim>\<open>new Error("Invalid Input")\<close>;
  \<^item> \<open>DivisionByZero\<close> is \<^verbatim>\<open>new Error("Can not divide by zero.")\<close>;
  \<^item> \<open>TypeError\<close> is what the engine throws when \<^verbatim>\<open>operate[token]\<close> is
    \<^verbatim>\<open>undefined\<close> and is called;
  \<^item> \<open>Diverges\<close> stands for the loop of \<^verbatim>\<open>convertToPostfix\<close> that pops an empty
    stack for ever (it never reaches a \<^verbatim>\<open>(\<close>), so that the call does not return.
\<close>

datatype error = InvalidExpression | DivisionByZero | TypeError | Diverges

section \<open>JavaScript primitives\<close>

subsection \<open>Characters and white space\<close>

text \<open>
  A string is a list of characters; a \<^typ>\<open>char\<close> stands for the code unit of the same
  number (U+0000 to U+00FF). The white space of the regular expression \<^verbatim>\<open>\s\<close> in
  that range is TAB, LF, VT, FF, CR, SPACE and NO-BREAK SPACE; the same set is trimmed by
  \<^verbatim>\<open>Number(string)\<close>.
\<close>

definition isSpaceChar :: "char \<Rightarrow> bool" where
  "isSpaceChar c = (of_char c \<in> {9, 10, 11, 12, 13, 32, 160 :: int})"

text \<open>\<^verbatim>\<open>input.replace(/\s+/g, '')\<close>\<close>

definition removeSpaces :: "string \<Rightarrow> string" where
  "removeSpaces s = filter (\<lambda>c. \<not> isSpaceChar c) s"

subsection \<open>Numbers\<close>

text \<open>
  A Number is a binary64 value: not-a-number, an infinity, or a finite value, which is
  kept as the rational it denotes. Both zeros are \<open>Fin 0\<close>: the program cannot tell them
  apart (\<^verbatim>\<open>x === 0\<close> holds for both, \<^verbatim>\<open>String(-0)\<close> is \<^verbatim>\<open>"0"\<close>, and a
  divisor that is a number is compared with zero before it divides).
\<close>

datatype jsnum = Fin rat | PInf | NInf | NaN

text \<open>The number of digits of a positive integer in base \<open>b\<close>.\<close>

function numDigits :: "int \<Rightarrow> int \<Rightarrow> int" where
  "numDigits b n = (if 0 < n \<and> 1 < b then numDigits b (n div b) + 1 else 0)"
  by pat_completeness auto
termination
  by (relation "measure (\<lambda>(b, n). nat n)") (auto simp: zless_nat_conj intro: int_div_less_self)

declare numDigits.simps [simp del]

definition ilog2 :: "rat \<Rightarrow> int" where
  \<comment> \<open>\<open>\<lfloor>log\<^sub>2 a\<rfloor>\<close> for \<open>a > 0\<close>\<close>
  "ilog2 a =
     (if 1 \<le> a then numDigits 2 \<lfloor>a\<rfloor> - 1 else - numDigits 2 (\<lceil>1 / a\<rceil> - 1))"

definition ilog10 :: "rat \<Rightarrow> int" where
  \<comment> \<open>\<open>\<lfloor>log\<^sub>1\<^sub>0 a\<rfloor>\<close> for \<open>a > 0\<close>\<close>
  "ilog10 a =
     (if 1 \<le> a then numDigits 10 \<lfloor>a\<rfloor> - 1 else - numDigits 10 (\<lceil>1 / a\<rceil> - 1))"

definition roundHalfEven :: "rat \<Rightarrow> int" where
  "roundHalfEven q =
     (let f = \<lfloor>q\<rfloor>; d = q - of_int f
      in if d < 1 / 2 then f else if 1 / 2 < d then f + 1 else if even f then f else f + 1)"

text \<open>Powers of two and of ten with an integer exponent, as quotients of integers.\<close>

definition pow2 :: "int \<Rightarrow> rat" where
  "pow2 e = of_int (2 ^ nat e) / of_int (2 ^ nat (- e))"

definition pow10 :: "int \<Rightarrow> rat" where
  "pow10 e = of_int (10 ^ nat e) / of_int (10 ^ nat (- e))"

text \<open>
  Rounding of a real value to binary64, to nearest with ties to even: 53 significant bits
  \<open>m\<close>, the least exponent of a unit in the last place is \<open>-1074\<close>, and a result
  \<open>m \<times> 2\<^sup>e\<close> of \<open>2\<^sup>1\<^sup>0\<^sup>2\<^sup>4\<close> or more is an infinity (that is \<open>2\<^sup>1\<^sup>0\<^sup>2\<^sup>4 \<le> \<bar>x\<bar>\<close>, or
  \<open>2\<^sup>1\<^sup>0\<^sup>2\<^sup>3 \<le> \<bar>x\<bar>\<close> with \<open>m\<close> rounded up to \<open>2\<^sup>5\<^sup>3\<close>).
\<close>

definition rnd :: "rat \<Rightarrow> jsnum" where
  "rnd x =
     (if x = 0 then Fin 0
      else let a = \<bar>x\<bar>;
               l = ilog2 a;
               e = max (l - 52) (- 1074);
               m = roundHalfEven (a / pow2 e)
           in if 1024 \<le> l \<or> (l = 1023 \<and> m = 2 ^ 53) then (if 0 < x then PInf else NInf)
              else Fin (if 0 < x then of_int m * pow2 e else - (of_int m * pow2 e)))"

fun num_neg :: "jsnum \<Rightarrow> jsnum" where
  "num_neg (Fin a) = Fin (- a)"
| "num_neg PInf = NInf"
| "num_neg NInf = PInf"
| "num_neg NaN = NaN"

fun num_add :: "jsnum \<Rightarrow> jsnum \<Rightarrow> jsnum" where
  "num_add NaN _ = NaN"
| "num_add _ NaN = NaN"
| "num_add PInf NInf = NaN"
| "num_add NInf PInf = NaN"
| "num_add PInf _ = PInf"
| "num_add _ PInf = PInf"
| "num_add NInf _ = NInf"
| "num_add _ NInf = NInf"
| "num_add (Fin a) (Fin b) = rnd (a + b)"

definition num_sub :: "jsnum \<Rightarrow> jsnum \<Rightarrow> jsnum" where
  "num_sub a b = num_add a (num_neg b)"

fun num_sign :: "jsnum \<Rightarrow> int" where
  "num_sign (Fin a) = (if 0 < a then 1 else if a < 0 then - 1 else 0)"
| "num_sign PInf = 1"
| "num_sign NInf = - 1"
| "num_sign NaN = 0"

fun num_mul :: "jsnum \<Rightarrow> jsnum \<Rightarrow> jsnum" where
  "num_mul NaN _ = NaN"
| "num_mul _ NaN = NaN"
| "num_mul (Fin a) (Fin b) = rnd (a * b)"
| "num_mul a b =
     (if num_sign a * num_sign b = 0 then NaN
      else if 0 < num_sign a * num_sign b then PInf else NInf)"

text \<open>
  Division. A zero divisor is \<open>+0\<close> here: the only divisors that are not compared with
  zero first are strings, and no token reads as \<open>-0\<close>.
\<close>

fun num_div :: "jsnum \<Rightarrow> jsnum \<Rightarrow> jsnum" where
  "num_div NaN _ = NaN"
| "num_div _ NaN = NaN"
| "num_div (Fin a) (Fin b) =
     (if b = 0 then (if a = 0 then NaN else if 0 < a then PInf else NInf)
      else rnd (a / b))"
| "num_div (Fin a) _ = Fin 0"
| "num_div a (Fin b) = (if b < 0 then num_neg a else a)"
| "num_div _ _ = NaN"

text \<open>
  \<^verbatim>\<open>Math.round\<close>: the nearest integer, a tie going up. The result of rounding a
  binary64 value is a binary64 value.
\<close>

fun math_round :: "jsnum \<Rightarrow> jsnum" where
  "math_round (Fin a) = Fin (of_int \<lfloor>a + 1 / 2\<rfloor>)"
| "math_round n = n"

subsection \<open>\<^verbatim>\<open>Number(string)\<close>\<close>

text \<open>
  The string is trimmed; the empty string is zero; otherwise it must be a binary, octal or
  hexadecimal integer literal, or an optionally signed \<^verbatim>\<open>Infinity\<close> or decimal
  literal (digits with an optional fraction and an optional exponent). Anything else is
  not-a-number.
\<close>

definition isDigit :: "char \<Rightarrow> bool" where
  "isDigit c = (c \<in> set ''0123456789'')"

definition digitVal :: "char \<Rightarrow> int" where
  "digitVal c =
     (if isDigit c then of_char c - 48
      else if c \<in> set ''abcdef'' then of_char c - 87
      else of_char c - 55)"

definition digitsVal :: "int \<Rightarrow> string \<Rightarrow> int" where
  "digitsVal base ds = foldl (\<lambda>a c. base * a + digitVal c) 0 ds"

definition trimSpaces :: "string \<Rightarrow> string" where
  "trimSpaces s = rev (dropWhile isSpaceChar (rev (dropWhile isSpaceChar s)))"

definition parseExponent :: "string \<Rightarrow> int option" where
  "parseExponent s =
     (case s of
        [] \<Rightarrow> Some 0
      | c # cs \<Rightarrow>
          if c \<in> set ''eE'' then
            (let neg = (cs \<noteq> [] \<and> hd cs = CHR ''-'');
                 ds = (if cs \<noteq> [] \<and> hd cs \<in> set ''+-'' then tl cs else cs)
             in if ds \<noteq> [] \<and> list_all isDigit ds
                then Some (if neg then - digitsVal 10 ds else digitsVal 10 ds)
                else None)
          else None)"

definition parseUnsignedDecimal :: "string \<Rightarrow> rat option" where
  "parseUnsignedDecimal s =
     (let ip = takeWhile isDigit s;
          r1 = dropWhile isDigit s;
          dot = (r1 \<noteq> [] \<and> hd r1 = CHR ''.'');
          fp = (if dot then takeWhile isDigit (tl r1) else []);
          r2 = (if dot then dropWhile isDigit (tl r1) else r1)
      in if ip = [] \<and> fp = [] then None
         else case parseExponent r2 of
                None \<Rightarrow> None
              | Some e \<Rightarrow> Some (of_int (digitsVal 10 (ip @ fp)) * pow10 (e - int (length fp))))"

definition parseNonDecimal :: "string \<Rightarrow> rat option" where
  "parseNonDecimal s =
     (case s of
        z # p # ds \<Rightarrow>
          if z = CHR ''0'' \<and> ds \<noteq> [] then
            (if p \<in> set ''bB'' \<and> list_all (\<lambda>c. c \<in> set ''01'') ds
               then Some (of_int (digitsVal 2 ds))
             else if p \<in> set ''oO'' \<and> list_all (\<lambda>c. c \<in> set ''01234567'') ds
               then Some (of_int (digitsVal 8 ds))
             else if p \<in> set ''xX'' \<and> list_all (\<lambda>c. c \<in> set ''0123456789abcdefABCDEF'') ds
               then Some (of_int (digitsVal 16 ds))
             else None)
          else None
      | _ \<Rightarrow> None)"

definition stringToNumber :: "string \<Rightarrow> jsnum" where
  "stringToNumber s0 =
     (let s = trimSpaces s0 in
      if s = [] then Fin 0
      else case parseNonDecimal s of
             Some v \<Rightarrow> rnd v
           | None \<Rightarrow>
               (let neg = (hd s = CHR ''-'');
                    u = (if hd s \<in> set ''+-'' then tl s else s)
                in if u = ''Infinity'' then (if neg then NInf else PInf)
                   else case parseUnsignedDecimal u of
                          None \<Rightarrow> NaN
                        | Some v \<Rightarrow> rnd (if neg then - v else v)))"

subsection \<open>\<^verbatim>\<open>String(number)\<close>\<close>

text \<open>
  The decimal digits \<open>s\<close> (\<open>k\<close> of them, as few as possible) and the exponent \<open>n\<close> with
  \<open>s \<times> 10\<^sup>n\<^sup>-\<^sup>k\<close> rounding to the number, the closest to it if there are several, then
  positional or exponent notation after \<open>n\<close>. Seventeen digits are enough for every
  binary64 value.
\<close>

function intToString :: "int \<Rightarrow> string" where
  "intToString n =
     (if n < 10 then [char_of (48 + n)]
      else intToString (n div 10) @ [char_of (48 + n mod 10)])"
  by pat_completeness auto
termination
  by (relation "measure nat") (auto simp: zless_nat_conj intro: int_div_less_self)

declare intToString.simps [simp del]

definition candidates :: "rat \<Rightarrow> nat \<Rightarrow> (int \<times> int) list" where
  "candidates x k =
     [(s, n).
        n \<leftarrow> [ilog10 x + 1, ilog10 x + 2],
        s \<leftarrow> [\<lfloor>x / pow10 (n - int k)\<rfloor>, \<lfloor>x / pow10 (n - int k)\<rfloor> + 1],
        10 ^ (k - 1) \<le> s \<and> s < 10 ^ k \<and> rnd (of_int s * pow10 (n - int k)) = Fin x]"

definition closer :: "rat \<Rightarrow> nat \<Rightarrow> int \<times> int \<Rightarrow> int \<times> int \<Rightarrow> int \<times> int" where
  "closer x k c c' =
     (let d = \<bar>of_int (fst c) * pow10 (snd c - int k) - x\<bar>;
          d' = \<bar>of_int (fst c') * pow10 (snd c' - int k) - x\<bar>
      in if d' < d \<or> (d' = d \<and> even (fst c')) then c' else c)"

fun shortestDigits :: "nat list \<Rightarrow> rat \<Rightarrow> int \<times> nat \<times> int" where
  "shortestDigits [] x = (\<lfloor>x / pow10 (ilog10 x + 1 - 17)\<rfloor>, 17, ilog10 x + 1)"
| "shortestDigits (k # ks) x =
     (case candidates x k of
        [] \<Rightarrow> shortestDigits ks x
      | c # cs \<Rightarrow> (fst (foldl (closer x k) c cs), k, snd (foldl (closer x k) c cs)))"

definition positiveToString :: "rat \<Rightarrow> string" where
  "positiveToString x =
     (let (s, k, n) = shortestDigits [1, 2, 3, 4, 5, 6, 7, 8, 9, 10, 11, 12, 13, 14, 15, 16, 17] x;
          ds = intToString s;
          e = n - 1;
          es = (if e < 0 then ''-'' else ''+'') @ intToString \<bar>e\<bar>
      in if int k \<le> n \<and> n \<le> 21 then ds @ replicate (nat (n - int k)) CHR ''0''
         else if 0 < n \<and> n \<le> 21 then take (nat n) ds @ ''.'' @ drop (nat n) ds
         else if - 6 < n \<and> n \<le> 0 then ''0.'' @ replicate (nat (- n)) CHR ''0'' @ ds
         else if k = 1 then ds @ ''e'' @ es
         else take 1 ds @ ''.'' @ drop 1 ds @ ''e'' @ es)"

fun numberToString :: "jsnum \<Rightarrow> string" where
  "numberToString NaN = ''NaN''"
| "numberToString PInf = ''Infinity''"
| "numberToString NInf = ''-Infinity''"
| "numberToString (Fin x) =
     (if x = 0 then ''0''
      else if x < 0 then ''-'' @ positiveToString (- x)
      else positiveToString x)"

subsection \<open>Values\<close>

text \<open>
  The values the program handles: strings, numbers, and \<^verbatim>\<open>undefined\<close> (an array
  read out of range, \<^verbatim>\<open>pop\<close> of an empty array, a missing key).
\<close>

datatype jsval = Undefined | Str string | Num jsnum

fun toNumber :: "jsval \<Rightarrow> jsnum" where
  "toNumber Undefined = NaN"
| "toNumber (Str s) = stringToNumber s"
| "toNumber (Num n) = n"

fun toString :: "jsval \<Rightarrow> string" where
  "toString Undefined = ''undefined''"
| "toString (Str s) = s"
| "toString (Num n) = numberToString n"

section \<open>The calculator\<close>

subsection \<open>Helpers\<close>

text \<open>
  \<^verbatim>\<open>isOperator = element => '*/-+()'.includes(element)\<close>: the element, as a string,
  occurs in \<^verbatim>\<open>'*/-+()'\<close> as a contiguous part.
  \<^verbatim>\<open>isNumber = element => !isNaN(element)\<close>.
\<close>

definition isOperator :: "jsval \<Rightarrow> bool" where
  "isOperator element = sublist (toString element) ''*/-+()''"

definition isNumber :: "jsval \<Rightarrow> bool" where
  "isNumber element = (toNumber element \<noteq> NaN)"

text \<open>
  Arrays of tokens are lists of strings. A read out of range is \<^verbatim>\<open>undefined\<close>;
  \<^verbatim>\<open>splice(i, 0, x)\<close> inserts before index \<open>i\<close>, \<^verbatim>\<open>splice(i, 1)\<close> removes the
  element at \<open>i\<close>.
\<close>

definition elementAt :: "string list \<Rightarrow> int \<Rightarrow> jsval" where
  "elementAt xs i = (if 0 \<le> i \<and> i < int (length xs) then Str (xs ! nat i) else Undefined)"

definition insertAt :: "'a list \<Rightarrow> nat \<Rightarrow> 'a \<Rightarrow> 'a list" where
  "insertAt xs i x = take i xs @ x # drop i xs"

definition removeAt :: "'a list \<Rightarrow> nat \<Rightarrow> 'a list" where
  "removeAt xs i = take i xs @ drop (Suc i) xs"

subsection \<open>\<^verbatim>\<open>validateInput\<close>\<close>

text \<open>The first loop, with \<^verbatim>\<open>parenthesesTracker\<close> as its state.\<close>

fun scanParentheses :: "int \<Rightarrow> string \<Rightarrow> error + int" where
  "scanParentheses parenthesesTracker [] = Inr parenthesesTracker"
| "scanParentheses parenthesesTracker (chr # rest) =
     (if chr = CHR ''('' then scanParentheses (parenthesesTracker + 1) rest
      else if chr = CHR '')'' then
        (if parenthesesTracker - 1 < 0 then Inl InvalidExpression
         else scanParentheses (parenthesesTracker - 1) rest)
      else scanParentheses parenthesesTracker rest)"

definition allowedElements :: string where
  "allowedElements = ''1234567890.()*/-+''"

definition validateInput :: "string \<Rightarrow> error + unit" where
  "validateInput input =
     (case scanParentheses 0 input of
        Inl e \<Rightarrow> Inl e
      | Inr parenthesesTracker \<Rightarrow>
          if parenthesesTracker \<noteq> 0 then Inl InvalidExpression
          else if list_ex (\<lambda>char. char \<notin> set allowedElements) (removeSpaces input)
            then Inl InvalidExpression
          else Inr ())"

subsection \<open>\<^verbatim>\<open>getArrayOfTokens\<close>\<close>

text \<open>
  The inner \<^verbatim>\<open>while\<close> loop: \<open>currToken\<close> grows by the characters that follow, up to
  the next operator or the end. It returns the token and what is left of
  \<^verbatim>\<open>inputArray\<close>.
\<close>

fun readToken :: "string \<Rightarrow> string \<Rightarrow> error + string \<times> string" where
  "readToken currToken [] = Inr (currToken, [])"
| "readToken currToken (next # rest) =
     (if isOperator (Str [next]) then Inr (currToken, next # rest)
      else if CHR ''.'' \<in> set currToken \<and> next = CHR ''.'' then Inl InvalidExpression
      else readToken (currToken @ [next]) rest)"

text \<open>The outer \<^verbatim>\<open>for\<close> loop, over what is left of \<^verbatim>\<open>inputArray\<close>.\<close>

function tokenLoop :: "string \<Rightarrow> string list \<Rightarrow> error + string list" where
  "tokenLoop [] tokenArray = Inr tokenArray"
| "tokenLoop (currToken # rest) tokenArray =
     (if isOperator (Str [currToken]) then tokenLoop rest (tokenArray @ [[currToken]])
      else case readToken [currToken] rest of
             Inl e \<Rightarrow> Inl e
           | Inr (tok, rest') \<Rightarrow>
               if last tok = CHR ''.'' then Inl InvalidExpression
               else tokenLoop rest' (tokenArray @ [tok]))"
  by pat_completeness auto
termination
proof -
  have shorter: "length rest \<le> length inputArray"
    if "readToken currToken inputArray = Inr (tok, rest)"
    for currToken inputArray tok rest
    using that
  proof (induction inputArray arbitrary: currToken)
    case Nil
    then show ?case by simp
  next
    case (Cons c inputArray)
    show ?case
    proof (cases "isOperator (Str [c])")
      case True
      with Cons.prems show ?thesis by simp
    next
      case False
      with Cons.prems have "readToken (currToken @ [c]) inputArray = Inr (tok, rest)"
        by (simp split: if_splits)
      from Cons.IH [OF this] show ?thesis by simp
    qed
  qed
  show ?thesis
    by (relation "measure (\<lambda>(inputArray, tokenArray). length inputArray)")
       (auto dest: shorter)
qed

definition getArrayOfTokens :: "string \<Rightarrow> error + string list" where
  "getArrayOfTokens input = tokenLoop (removeSpaces input) []"

subsection \<open>\<^verbatim>\<open>fixParenthesesMultiplication\<close>\<close>

text \<open>The loop splices the array it scans; its state is the array and the index.\<close>

function fixParenthesesLoop :: "string list \<Rightarrow> nat \<Rightarrow> string list" where
  "fixParenthesesLoop tokenArray i =
     (if int i < int (length tokenArray) - 1 then
        (if elementAt tokenArray (int i) = Str '')'' \<and> elementAt tokenArray (int i + 1) = Str ''('' then
           fixParenthesesLoop (insertAt tokenArray (i + 1) ''*'') (i + 1)
         else if elementAt tokenArray (int i) = Str ''('' \<and> isNumber (elementAt tokenArray (int i - 1)) then
           fixParenthesesLoop (insertAt tokenArray i ''*'') (i + 2)
         else if elementAt tokenArray (int i) = Str '')'' \<and> isNumber (elementAt tokenArray (int i + 1)) then
           fixParenthesesLoop (insertAt tokenArray (i + 1) ''*'') (i + 1)
         else fixParenthesesLoop tokenArray (i + 1))
      else tokenArray)"
  by pat_completeness auto
termination
  by (relation "measure (\<lambda>(tokenArray, i).
        2 * (length tokenArray - 1 - i) + (if elementAt tokenArray (int i) = Str '')'' then 1 else 0))")
     (auto simp: elementAt_def insertAt_def nth_append)

declare fixParenthesesLoop.simps [simp del]

definition fixParenthesesMultiplication :: "string list \<Rightarrow> string list" where
  "fixParenthesesMultiplication tokenArray = fixParenthesesLoop tokenArray 1"

subsection \<open>\<^verbatim>\<open>fixNegativeNumbers\<close>\<close>

definition negate :: "jsval \<Rightarrow> string" where
  \<comment> \<open>\<^verbatim>\<open>String(-1 * element)\<close>\<close>
  "negate element = numberToString (num_mul (Fin (- 1)) (toNumber element))"

function fixNegativeLoop :: "string list \<Rightarrow> nat \<Rightarrow> string list" where
  "fixNegativeLoop tokenArray i =
     (if i < length tokenArray then
        (if elementAt tokenArray (int i) = Str ''-'' \<and> elementAt tokenArray (int i + 1) = Str ''('' then
           (let tokenArray1 = insertAt (tokenArray[i := ''-1'']) (i + 1) ''*''
            in if isNumber (elementAt tokenArray1 (int i - 1))
               then fixNegativeLoop (insertAt tokenArray1 i ''+'') (i + 2)
               else fixNegativeLoop tokenArray1 (i + 1))
         else if elementAt tokenArray (int i) = Str ''-'' \<and> isNumber (elementAt tokenArray (int i + 1)) then
           (let tokenArray1 =
                  removeAt (tokenArray[i + 1 := negate (elementAt tokenArray (int i + 1))]) i
            in if isNumber (elementAt tokenArray1 (int i - 1)) \<or> elementAt tokenArray1 (int i - 1) = Str '')''
               then fixNegativeLoop (insertAt tokenArray1 i ''+'') (i + 1)
               else fixNegativeLoop tokenArray1 (i + 1))
         else fixNegativeLoop tokenArray (i + 1))
      else tokenArray)"
  by pat_completeness auto

termination
  by (relation "measure (\<lambda>(tokenArray, i).
        2 * (length tokenArray - i) + (if elementAt tokenArray (int i) = Str ''-'' then 1 else 0))")
     (auto simp: elementAt_def insertAt_def removeAt_def nth_append Let_def)

declare fixNegativeLoop.simps [simp del]

definition fixNegativeNumbers :: "string list \<Rightarrow> string list" where
  "fixNegativeNumbers tokenArray = fixNegativeLoop tokenArray 0"

subsection \<open>\<^verbatim>\<open>convertToPostfix\<close>\<close>

definition precedence :: "string \<rightharpoonup> nat" where
  "precedence =
     [''('' \<mapsto> 1, ''+'' \<mapsto> 2, ''-'' \<mapsto> 2, ''*'' \<mapsto> 3, ''/'' \<mapsto> 3]"

text \<open>\<^verbatim>\<open>>=\<close> on two lookups: a comparison with \<^verbatim>\<open>undefined\<close> is false.\<close>

definition geq :: "nat option \<Rightarrow> nat option \<Rightarrow> bool" where
  "geq a b = (case (a, b) of (Some m, Some n) \<Rightarrow> n \<le> m | _ \<Rightarrow> False)"

text \<open>
  The operator stack is a list with its top at the head. The loop for \<^verbatim>\<open>)\<close> pops
  up to the first \<^verbatim>\<open>(\<close>; on a stack without one it pops \<^verbatim>\<open>undefined\<close> for
  ever.
\<close>

fun popToParenthesis :: "string list \<Rightarrow> string list \<Rightarrow> error + string list \<times> string list" where
  "popToParenthesis [] postfixArray = Inl Diverges"
| "popToParenthesis (currToken # operatorStack) postfixArray =
     (if currToken \<noteq> ''('' then popToParenthesis operatorStack (postfixArray @ [currToken])
      else Inr (operatorStack, postfixArray))"

text \<open>The loop for any other operator.\<close>

fun popHigher :: "string \<Rightarrow> string list \<Rightarrow> string list \<Rightarrow> string list \<times> string list" where
  "popHigher token [] postfixArray = ([], postfixArray)"
| "popHigher token (peek # operatorStack) postfixArray =
     (if geq (precedence peek) (precedence token)
      then popHigher token operatorStack (postfixArray @ [peek])
      else (peek # operatorStack, postfixArray))"

fun postfixLoop :: "string list \<Rightarrow> string list \<Rightarrow> string list \<Rightarrow> error + string list" where
  "postfixLoop [] postfixArray operatorStack = Inr (postfixArray @ operatorStack)"
| "postfixLoop (token # tokenArray) postfixArray operatorStack =
     (if \<not> isOperator (Str token) then postfixLoop tokenArray (postfixArray @ [token]) operatorStack
      else if token = ''('' then postfixLoop tokenArray postfixArray (token # operatorStack)
      else if token = '')'' then
        (case popToParenthesis operatorStack postfixArray of
           Inl e \<Rightarrow> Inl e
         | Inr (operatorStack', postfixArray') \<Rightarrow>
             postfixLoop tokenArray postfixArray' operatorStack')
      else
        (case popHigher token operatorStack postfixArray of
           (operatorStack', postfixArray') \<Rightarrow>
             postfixLoop tokenArray postfixArray' (token # operatorStack')))"

definition convertToPostfix :: "string \<Rightarrow> error + string list" where
  "convertToPostfix input =
     (case getArrayOfTokens input of
        Inl e \<Rightarrow> Inl e
      | Inr tokenArray \<Rightarrow>
          postfixLoop (fixNegativeNumbers (fixParenthesesMultiplication tokenArray)) [] [])"

subsection \<open>\<^verbatim>\<open>evaluateExpression\<close>\<close>

text \<open>
  \<^verbatim>\<open>operate[token](x, y)\<close>. The test \<^verbatim>\<open>x === 0\<close> holds for a number that is zero
  and for nothing else: not for the string \<^verbatim>\<open>"0"\<close>.
\<close>

definition operate :: "string \<Rightarrow> jsval \<Rightarrow> jsval \<Rightarrow> error + jsnum" where
  "operate token x y =
     (if token = ''+'' then Inr (num_add (toNumber x) (toNumber y))
      else if token = ''-'' then Inr (num_sub (toNumber y) (toNumber x))
      else if token = ''*'' then Inr (num_mul (toNumber x) (toNumber y))
      else if token = ''/'' then
        (if x = Num (Fin 0) then Inl DivisionByZero
         else Inr (num_div (toNumber y) (toNumber x)))
      else Inl TypeError)"

text \<open>\<^verbatim>\<open>postfixStack.pop()\<close>; the stack is a list with its top at the head.\<close>

fun pop :: "jsval list \<Rightarrow> jsval \<times> jsval list" where
  "pop [] = (Undefined, [])"
| "pop (v # stack) = (v, stack)"

fun evaluateLoop :: "string list \<Rightarrow> jsval list \<Rightarrow> error + jsval list" where
  "evaluateLoop [] postfixStack = Inr postfixStack"
| "evaluateLoop (token # postfixArray) postfixStack =
     (if isOperator (Str token) then
        (let (elementOne, stack1) = pop postfixStack;
             (elementTwo, stack2) = pop stack1
         in case operate token elementOne elementTwo of
              Inl e \<Rightarrow> Inl e
            | Inr v \<Rightarrow> evaluateLoop postfixArray (Num v # stack2))
      else evaluateLoop postfixArray (Str token # postfixStack))"

definition roundedSolution :: "jsval \<Rightarrow> jsnum" where
  "roundedSolution solution =
     num_div (math_round (num_mul (toNumber solution) (Fin 10000))) (Fin 10000)"

text \<open>\<^verbatim>\<open>postfixStack[0]\<close> is the bottom of the stack.\<close>

definition bottom :: "jsval list \<Rightarrow> jsval" where
  "bottom postfixStack = (if postfixStack = [] then Undefined else last postfixStack)"

definition evaluateExpression :: "string \<Rightarrow> error + jsnum" where
  "evaluateExpression input =
     (case validateInput input of
        Inl e \<Rightarrow> Inl e
      | Inr _ \<Rightarrow>
          (case convertToPostfix input of
             Inl e \<Rightarrow> Inl e
           | Inr postfixArray \<Rightarrow>
               (case evaluateLoop postfixArray [] of
                  Inl e \<Rightarrow> Inl e
                | Inr postfixStack \<Rightarrow>
                    (let solution = roundedSolution (bottom postfixStack)
                     in if length postfixStack \<noteq> 1 then Inl InvalidExpression
                        else if \<not> isNumber (Num solution) then Inl InvalidExpression
                        else Inr solution))))"

section \<open>Notions of the specification\<close>

text \<open>
  The parenthesis nesting count of a string: the number of \<^verbatim>\<open>(\<close> in it less the
  number of \<^verbatim>\<open>)\<close>.
\<close>

definition nesting :: "string \<Rightarrow> int" where
  "nesting s =
     int (length (filter (\<lambda>c. c = CHR ''('') s)) - int (length (filter (\<lambda>c. c = CHR '')'') s))"

text \<open>
  The three adjacency patterns of implicit multiplication, and the token sequence with a
  \<^verbatim>\<open>*\<close> between every two neighbours that match one of them.
\<close>

definition needsTimes :: "string \<Rightarrow> string \<Rightarrow> bool" where
  "needsTimes a b =
     ((a = '')'' \<and> b = ''('') \<or> (isNumber (Str a) \<and> b = ''('') \<or> (a = '')'' \<and> isNumber (Str b)))"

fun insertTimes :: "string list \<Rightarrow> string list" where
  "insertTimes (a # b # ts) =
     (if needsTimes a b then a # ''*'' # insertTimes (b # ts) else a # insertTimes (b # ts))"
| "insertTimes ts = ts"

text \<open>
  Every \<^verbatim>\<open>-\<close> token is directly followed by a \<^verbatim>\<open>(\<close> or by a number: the sequences
  in which a \<^verbatim>\<open>-\<close> is either a sign or a subtraction of what follows it.
\<close>

fun minusFollowed :: "string list \<Rightarrow> bool" where
  "minusFollowed [] = True"
| "minusFollowed [t] = (t \<noteq> ''-'')"
| "minusFollowed (t # u # ts) =
     ((t = ''-'' \<longrightarrow> u = ''('' \<or> isNumber (Str u)) \<and> minusFollowed (u # ts))"

section \<open>The splicing loops as folds\<close>

text \<open>
  What the two splicing loops compute, as functions of the token before the index (nothing
  before the first one) and of the tokens from the index on. They are shown below to be
  the loops.
\<close>

definition previous :: "string list \<Rightarrow> jsval" where
  "previous seen = (if seen = [] then Undefined else Str (last seen))"

fun parenFold :: "string \<Rightarrow> string list \<Rightarrow> string list" where
  "parenFold p [] = []"
| "parenFold p [t] = [t]"
| "parenFold p (t # u # ts) =
     (if t = '')'' \<and> u = ''('' then t # ''*'' # parenFold ''*'' (u # ts)
      else if t = ''('' \<and> isNumber (Str p) then ''*'' # t # parenFold t (u # ts)
      else if t = '')'' \<and> isNumber (Str u) then t # ''*'' # parenFold ''*'' (u # ts)
      else t # parenFold t (u # ts))"

fun negFold :: "jsval \<Rightarrow> string list \<Rightarrow> string list" where
  "negFold p [] = []"
| "negFold p [t] = [t]"
| "negFold p (t # u # ts) =
     (if t = ''-'' \<and> u = ''('' then
        (if isNumber p then [''+'', ''-1'', ''*''] else [''-1'', ''*'']) @ negFold (Str ''*'') (u # ts)
      else if t = ''-'' \<and> isNumber (Str u) then
        (if isNumber p \<or> p = Str '')'' then [''+'', negate (Str u)] else [negate (Str u)])
          @ negFold (Str (negate (Str u))) ts
      else t # negFold (Str t) (u # ts))"

section \<open>Evaluations\<close>

text \<open>The examples of the specification, run through the model.\<close>

lemma eval_5_minus_3: "evaluateExpression ''5-3'' = Inr (Fin 2)"
  by code_simp

lemma eval_neg5_plus_3: "evaluateExpression ''-5+3'' = Inr (Fin (- 2))"
  by code_simp

lemma eval_5_minus_neg3: "evaluateExpression ''5--3'' = Inr (Fin 8)"
  by code_simp

lemma eval_neg_group: "evaluateExpression ''-(2+3)'' = Inr (Fin (- 5))"
  by code_simp

lemma eval_5_minus_group: "evaluateExpression ''5-(2+3)'' = Inr (Fin 0)"
  by code_simp

lemma eval_2_plus_3_times_4: "evaluateExpression ''2+3*4'' = Inr (Fin 14)"
  by code_simp

lemma eval_group_times_4: "evaluateExpression ''(2+3)*4'' = Inr (Fin 20)"
  by code_simp

lemma eval_10_minus_3_minus_2: "evaluateExpression ''10-3-2'' = Inr (Fin 5)"
  by code_simp

lemma eval_2_group_3: "evaluateExpression ''2(3)'' = Inr (Fin 6)"
  by code_simp

lemma eval_group_2_group_3: "evaluateExpression ''(2)(3)'' = Inr (Fin 6)"
  by code_simp

lemma eval_group_2_3: "evaluateExpression ''(2)3'' = Inr (Fin 6)"
  by code_simp

lemma eval_three_groups: "evaluateExpression ''(2)(3)(4)'' = Inr (Fin 24)"
  by code_simp

lemma eval_balanced: "evaluateExpression ''(1+2)'' = Inr (Fin 3)"
  by code_simp

lemma eval_unclosed: "evaluateExpression ''(1+2'' = Inl InvalidExpression"
  by code_simp

lemma eval_unopened: "evaluateExpression ''1+2)'' = Inl InvalidExpression"
  by code_simp

lemma eval_decimals: "evaluateExpression ''1.5+2.25'' = Inr (Fin (15 / 4))"
  by code_simp

lemma eval_two_points: "evaluateExpression ''1..5'' = Inl InvalidExpression"
  by code_simp

lemma eval_trailing_point: "evaluateExpression ''1.+2'' = Inl InvalidExpression"
  by code_simp

lemma eval_third: "evaluateExpression ''1/3'' = Inr (stringToNumber ''0.3333'')"
  by code_simp

lemma eval_5_by_0: "evaluateExpression ''5/0'' = Inr PInf"
  by code_simp

lemma eval_5_by_computed_0: "evaluateExpression ''5/(1-1)'' = Inl DivisionByZero"
  by code_simp

lemma eval_group_minus_group: "evaluateExpression ''(2)-(3)'' = Inl InvalidExpression"
  by code_simp

lemma eval_spaces: "evaluateExpression ''1 + 2'' = Inr (Fin 3)"
  by code_simp

lemma eval_8_by_4_by_2: "evaluateExpression ''8/4/2'' = Inr (Fin 1)"
  by code_simp

lemma eval_2_times_3_plus_4: "evaluateExpression ''2*3+4'' = Inr (Fin 10)"
  by code_simp

lemma eval_minus_chain: "evaluateExpression ''5--3--2'' = Inr (Fin 10)"
  by code_simp

lemma postfix_2_plus_3_times_4:
  "convertToPostfix ''2+3*4'' = Inr [''2'', ''3'', ''4'', ''*'', ''+'']"
  by code_simp

lemma postfix_group_times_4:
  "convertToPostfix ''(2+3)*4'' = Inr [''2'', ''3'', ''+'', ''4'', ''*'']"
  by code_simp

lemma postfix_10_minus_3_minus_2:
  "convertToPostfix ''10-3-2'' = Inr [''10'', ''-3'', ''+'', ''-2'', ''+'']"
  by code_simp

lemma postfix_8_by_4_by_2:
  "convertToPostfix ''8/4/2'' = Inr [''8'', ''4'', ''/'', ''2'', ''/'']"
  by code_simp

lemma postfix_2_times_3_plus_4:
  "convertToPostfix ''2*3+4'' = Inr [''2'', ''3'', ''*'', ''4'', ''+'']"
  by code_simp

lemma postfix_minus_chain:
  "convertToPostfix ''5--3--2'' = Inr [''5'', ''-3'', ''-'', ''-2'', ''-'']"
  by code_simp

lemma eval_group_minus_3: "evaluateExpression ''(2)-3'' = Inr (Fin (- 1))"
  by code_simp

lemma eval_2_minus_group: "evaluateExpression ''2-(3)'' = Inr (Fin (- 1))"
  by code_simp

lemma normal_group_minus_group:
  "fixNegativeNumbers (fixParenthesesMultiplication
     [''('', ''2'', '')'', ''-'', ''('', ''3'', '')'']) =
   [''('', ''2'', '')'', ''-1'', ''*'', ''('', ''3'', '')'']"
  by code_simp

lemma tokens_group_minus_group:
  "getArrayOfTokens ''(2)-(3)'' = Inr [''('', ''2'', '')'', ''-'', ''('', ''3'', '')'']"
  by code_simp

lemma postfix_group_minus_group:
  "convertToPostfix ''(2)-(3)'' = Inr [''2'', ''-1'', ''3'', ''*'']"
  by code_simp

lemma tokens_5_minus_neg3: "getArrayOfTokens ''5--3'' = Inr [''5'', ''-'', ''-'', ''3'']"
  by code_simp

lemma normal_5_minus_neg3:
  "fixNegativeNumbers (fixParenthesesMultiplication [''5'', ''-'', ''-'', ''3'']) =
     [''5'', ''-'', ''-3'']"
  by code_simp

lemma postfix_5_minus_neg3: "convertToPostfix ''5--3'' = Inr [''5'', ''-3'', ''-'']"
  by code_simp

section \<open>The validator\<close>

lemma nesting_Nil [simp]: "nesting [] = 0"
  by (simp add: nesting_def)

lemma nesting_Cons [simp]:
  "nesting (c # s) =
     (if c = CHR ''('' then 1 else if c = CHR '')'' then - 1 else 0) + nesting s"
  by (simp add: nesting_def)

lemma ex_le_Suc: "(\<exists>n\<le>Suc k. Q n) \<longleftrightarrow> Q 0 \<or> (\<exists>m\<le>k. Q (Suc m))"
  by (metis Suc_le_mono le0 not0_implies_Suc)

text \<open>
  The scan fails as soon as a prefix has more \<^verbatim>\<open>)\<close> than \<^verbatim>\<open>(\<close>, and returns
  the nesting count otherwise.
\<close>

lemma scanParentheses_char:
  "0 \<le> t \<Longrightarrow> scanParentheses t s =
     (if \<exists>n\<le>length s. t + nesting (take n s) < 0 then Inl InvalidExpression
      else Inr (t + nesting s))"
proof (induction s arbitrary: t)
  case Nil
  then show ?case by simp
next
  case (Cons c s)
  show ?case
  proof (cases "c = CHR ''(''")
    case True
    with Cons.prems Cons.IH [of "t + 1"] show ?thesis
      by (simp add: ex_le_Suc add.assoc)
  next
    case notOpen: False
    show ?thesis
    proof (cases "c = CHR '')''")
      case True
      show ?thesis
      proof (cases "t - 1 < 0")
        case True
        with \<open>c = CHR '')''\<close> Cons.prems have "t + nesting (take (Suc 0) (c # s)) < 0" by simp
        then have "\<exists>n\<le>length (c # s). t + nesting (take n (c # s)) < 0"
          by (intro exI [of _ "Suc 0"]) simp
        with True \<open>c = CHR '')''\<close> show ?thesis by simp
      next
        case False
        with \<open>c = CHR '')''\<close> Cons.prems Cons.IH [of "t - 1"] show ?thesis
          by (simp add: ex_le_Suc algebra_simps)
      qed
    next
      case False
      with notOpen Cons.prems Cons.IH [of t] show ?thesis
        by (simp add: ex_le_Suc)
    qed
  qed
qed

lemma scanParentheses_error:
  "scanParentheses t s = Inl e \<Longrightarrow> e = InvalidExpression"
  by (induction s arbitrary: t) (auto split: if_splits)

lemma invalid_char:
  assumes "c \<in> set input" "\<not> isSpaceChar c" "c \<notin> set allowedElements"
  shows "validateInput input = Inl InvalidExpression"
proof -
  from assms have ex: "list_ex (\<lambda>char. char \<notin> set allowedElements) (removeSpaces input)"
    by (auto simp: list_ex_iff removeSpaces_def)
  show ?thesis
  proof (cases "scanParentheses 0 input")
    case (Inl e)
    with scanParentheses_error [OF Inl] show ?thesis by (simp add: validateInput_def)
  next
    case (Inr t)
    with ex show ?thesis by (simp add: validateInput_def)
  qed
qed

lemma validateInput_char:
  "validateInput input =
     (if (\<exists>n\<le>length input. nesting (take n input) < 0) \<or> nesting input \<noteq> 0 \<or>
         (\<exists>c\<in>set (removeSpaces input). c \<notin> set ''0123456789.+-*/()'')
      then Inl InvalidExpression else Inr ())"
proof -
  have a: "set allowedElements = set ''0123456789.+-*/()''"
    by (auto simp: allowedElements_def)
  show ?thesis
    using scanParentheses_char [of 0 input]
    by (simp add: validateInput_def list_ex_iff a)
qed

text \<open>
  Claim C7. The validator fails with \<open>InvalidExpression\<close> exactly when the nesting count of
  some prefix of the input is negative, or the nesting count of the whole input is not
  zero, or the input without its white space has a character that is not a digit, a
  decimal point or one of \<^verbatim>\<open>+ - * / ( )\<close>; on every other input it returns without an
  error. \<^verbatim>\<open>(1+2)\<close> evaluates; \<^verbatim>\<open>(1+2\<close> and \<^verbatim>\<open>1+2)\<close> fail with
  \<open>InvalidExpression\<close>.
\<close>

theorem validator_contract:
  "validateInput input =
     (if (\<exists>n\<le>length input. nesting (take n input) < 0) \<or> nesting input \<noteq> 0 \<or>
         (\<exists>c\<in>set (removeSpaces input). c \<notin> set ''0123456789.+-*/()'')
      then Inl InvalidExpression else Inr ())
   \<and> evaluateExpression ''(1+2)'' = Inr (Fin 3)
   \<and> evaluateExpression ''(1+2'' = Inl InvalidExpression
   \<and> evaluateExpression ''1+2)'' = Inl InvalidExpression"
  using validateInput_char eval_balanced eval_unclosed eval_unopened by simp

theorem validator_contract_witness:
  "nesting ''(1+2'' \<noteq> 0 \<and> validateInput ''(1+2'' = Inl InvalidExpression"
  using validator_contract [of "''(1+2''"] by simp

section \<open>The tokenizer\<close>

lemma readToken_concat:
  "readToken currToken inputArray = Inr (tok, rest) \<Longrightarrow> tok @ rest = currToken @ inputArray"
proof (induction inputArray arbitrary: currToken)
  case Nil
  then show ?case by simp
next
  case (Cons c inputArray)
  show ?case
  proof (cases "isOperator (Str [c])")
    case True
    with Cons.prems show ?thesis by simp
  next
    case False
    with Cons.prems have "readToken (currToken @ [c]) inputArray = Inr (tok, rest)"
      by (simp split: if_splits)
    from Cons.IH [OF this] show ?thesis by simp
  qed
qed

lemma tokenLoop_concat:
  "tokenLoop inputArray tokenArray = Inr tokens \<Longrightarrow>
   concat tokens = concat tokenArray @ inputArray"
proof (induction inputArray tokenArray rule: tokenLoop.induct)
  case (1 tokenArray)
  then show ?case by simp
next
  case (2 currToken rest tokenArray)
  show ?case
  proof (cases "isOperator (Str [currToken])")
    case True
    with 2 show ?thesis by simp
  next
    case False
    with "2.prems" obtain tok rest' where
      r: "readToken [currToken] rest = Inr (tok, rest')" and
      l: "last tok \<noteq> CHR ''.''" and
      t: "tokenLoop rest' (tokenArray @ [tok]) = Inr tokens"
      by (auto split: sum.splits if_splits)
    from "2.IH"(2) [OF False r refl l t] readToken_concat [OF r]
    show ?thesis by simp
  qed
qed

text \<open>
  Claim C10. When \<^verbatim>\<open>getArrayOfTokens\<close> does not throw, the tokens it returns,
  concatenated in order, are the input without its white space.
\<close>

theorem tokens_partition_input:
  "getArrayOfTokens input = Inr tokens \<Longrightarrow> concat tokens = removeSpaces input"
  unfolding getArrayOfTokens_def by (drule tokenLoop_concat) simp

theorem tokens_partition_input_witness:
  "getArrayOfTokens ''12 + 3.5'' = Inr [''12'', ''+'', ''3.5''] \<and>
   concat [''12'', ''+'', ''3.5''] = removeSpaces ''12 + 3.5''"
proof -
  have g: "getArrayOfTokens ''12 + 3.5'' = Inr [''12'', ''+'', ''3.5'']"
    by code_simp
  from tokens_partition_input [OF g] g show ?thesis by simp
qed

section \<open>The postfix converter\<close>

lemma popHigher_eq:
  "popHigher token operatorStack postfixArray =
     (dropWhile (\<lambda>t. geq (precedence t) (precedence token)) operatorStack,
      postfixArray @ takeWhile (\<lambda>t. geq (precedence t) (precedence token)) operatorStack)"
  by (induction operatorStack arbitrary: postfixArray) simp_all

text \<open>The step of the converter at an operator other than a parenthesis.\<close>

lemma postfixLoop_operator:
  assumes "isOperator (Str token)" "token \<noteq> ''(''" "token \<noteq> '')''"
  shows "postfixLoop (token # tokenArray) postfixArray operatorStack =
    postfixLoop tokenArray
      (postfixArray @ takeWhile (\<lambda>t. geq (precedence t) (precedence token)) operatorStack)
      (token # dropWhile (\<lambda>t. geq (precedence t) (precedence token)) operatorStack)"
  using assms by (simp add: popHigher_eq)

lemma operator_tokens:
  "isOperator (Str ''+'')" "isOperator (Str ''-'')" "isOperator (Str ''*'')"
  "isOperator (Str ''/'')"
  by code_simp+

text \<open>
  Two operators between three operands: the first is moved to the output before the second
  is pushed exactly when its precedence is greater than or equal to that of the second.
\<close>

lemma postfixLoop_two_operators:
  assumes "\<not> isOperator (Str a)" "\<not> isOperator (Str b)" "\<not> isOperator (Str c)"
    and "o1 \<in> set [''+'', ''-'', ''*'', ''/'']" "o2 \<in> set [''+'', ''-'', ''*'', ''/'']"
  shows "postfixLoop [a, o1, b, o2, c] [] [] =
    Inr (if geq (precedence o1) (precedence o2) then [a, b, o1, c, o2] else [a, b, c, o2, o1])"
proof -
  from assms(4) operator_tokens have 1: "isOperator (Str o1)" "o1 \<noteq> ''(''" "o1 \<noteq> '')''"
    by auto
  from assms(5) operator_tokens have 2: "isOperator (Str o2)" "o2 \<noteq> ''(''" "o2 \<noteq> '')''"
    by auto
  from assms(1,2,3) 1 2 show ?thesis
    by (simp add: popHigher_eq)
qed

text \<open>
  Claim C5. At an operator, the converter pops the stack while the precedence of its top
  is greater than or equal to the precedence of the operator: it moves to the output the
  longest run of such operators at the top of the stack and then pushes the operator, so
  that of two operators in a row the first is applied first unless the second has the
  greater precedence. The postfix sequences are those of left-to-right evaluation:
  \<^verbatim>\<open>2+3*4\<close> is 14, \<^verbatim>\<open>(2+3)*4\<close> is 20 and \<^verbatim>\<open>10-3-2\<close> is 5; \<^verbatim>\<open>8/4/2\<close> is 1,
  \<^verbatim>\<open>2*3+4\<close> is 10 and \<^verbatim>\<open>5--3--2\<close> is 10.
\<close>

theorem precedence_pops:
  "(isOperator (Str token) \<and> token \<noteq> ''('' \<and> token \<noteq> '')'' \<longrightarrow>
      postfixLoop (token # tokenArray) postfixArray operatorStack =
        postfixLoop tokenArray
          (postfixArray @ takeWhile (\<lambda>t. geq (precedence t) (precedence token)) operatorStack)
          (token # dropWhile (\<lambda>t. geq (precedence t) (precedence token)) operatorStack))
   \<and> (\<not> isOperator (Str a) \<and> \<not> isOperator (Str b) \<and> \<not> isOperator (Str c) \<and>
       o1 \<in> set [''+'', ''-'', ''*'', ''/''] \<and> o2 \<in> set [''+'', ''-'', ''*'', ''/''] \<longrightarrow>
      postfixLoop [a, o1, b, o2, c] [] [] =
        Inr (if geq (precedence o1) (precedence o2) then [a, b, o1, c, o2]
             else [a, b, c, o2, o1]))
   \<and> popHigher token operatorStack postfixArray =
     (dropWhile (\<lambda>t. geq (precedence t) (precedence token)) operatorStack,
      postfixArray @ takeWhile (\<lambda>t. geq (precedence t) (precedence token)) operatorStack)
   \<and> geq (precedence ''-'') (precedence ''+'') \<and> geq (precedence ''/'') (precedence ''*'')
   \<and> geq (precedence ''*'') (precedence ''+'') \<and> \<not> geq (precedence ''+'') (precedence ''*'')
   \<and> convertToPostfix ''2+3*4'' = Inr [''2'', ''3'', ''4'', ''*'', ''+'']
   \<and> convertToPostfix ''(2+3)*4'' = Inr [''2'', ''3'', ''+'', ''4'', ''*'']
   \<and> convertToPostfix ''10-3-2'' = Inr [''10'', ''-3'', ''+'', ''-2'', ''+'']
   \<and> convertToPostfix ''8/4/2'' = Inr [''8'', ''4'', ''/'', ''2'', ''/'']
   \<and> convertToPostfix ''2*3+4'' = Inr [''2'', ''3'', ''*'', ''4'', ''+'']
   \<and> convertToPostfix ''5--3--2'' = Inr [''5'', ''-3'', ''-'', ''-2'', ''-'']
   \<and> evaluateExpression ''2+3*4'' = Inr (Fin 14)
   \<and> evaluateExpression ''(2+3)*4'' = Inr (Fin 20)
   \<and> evaluateExpression ''10-3-2'' = Inr (Fin 5)
   \<and> evaluateExpression ''8/4/2'' = Inr (Fin 1)
   \<and> evaluateExpression ''2*3+4'' = Inr (Fin 10)
   \<and> evaluateExpression ''5--3--2'' = Inr (Fin 10)"
proof -
  have g: "geq (precedence ''-'') (precedence ''+'')" "geq (precedence ''/'') (precedence ''*'')"
    "geq (precedence ''*'') (precedence ''+'')" "\<not> geq (precedence ''+'') (precedence ''*'')"
    by (simp_all add: geq_def precedence_def)
  show ?thesis
    using postfixLoop_operator [of token tokenArray postfixArray operatorStack]
      postfixLoop_two_operators [of a b c o1 o2]
      popHigher_eq [of token operatorStack postfixArray] g
      postfix_2_plus_3_times_4 postfix_group_times_4 postfix_10_minus_3_minus_2
      postfix_8_by_4_by_2 postfix_2_times_3_plus_4 postfix_minus_chain
      eval_2_plus_3_times_4 eval_group_times_4 eval_10_minus_3_minus_2
      eval_8_by_4_by_2 eval_2_times_3_plus_4 eval_minus_chain
    by blast
qed

theorem precedence_pops_witness:
  "postfixLoop [''8'', ''/'', ''4'', ''/'', ''2''] [] [] = Inr [''8'', ''4'', ''/'', ''2'', ''/'']
   \<and> postfixLoop [''2'', ''+'', ''3'', ''*'', ''4''] [] [] = Inr [''2'', ''3'', ''4'', ''*'', ''+'']
   \<and> postfixLoop [''+'', ''4''] [''2'', ''3''] [''*''] = Inr [''2'', ''3'', ''*'', ''4'', ''+'']"
proof -
  have n: "\<not> isOperator (Str ''8'')" "\<not> isOperator (Str ''4'')" "\<not> isOperator (Str ''2'')"
    "\<not> isOperator (Str ''3'')"
    by code_simp+
  have p: "isOperator (Str ''+'')" by code_simp
  have g: "geq (precedence ''/'') (precedence ''/'')" "\<not> geq (precedence ''+'') (precedence ''*'')"
    "geq (precedence ''*'') (precedence ''+'')"
    by (simp_all add: geq_def precedence_def)
  have 1: "postfixLoop [''8'', ''/'', ''4'', ''/'', ''2''] [] [] = Inr [''8'', ''4'', ''/'', ''2'', ''/'']"
    using precedence_pops [of "''+''" "[]" "[]" "[]" "''8''" "''4''" "''2''" "''/''" "''/''"] n g
    by simp
  have 2: "postfixLoop [''2'', ''+'', ''3'', ''*'', ''4''] [] [] = Inr [''2'', ''3'', ''4'', ''*'', ''+'']"
    using precedence_pops [of "''+''" "[]" "[]" "[]" "''2''" "''3''" "''4''" "''+''" "''*''"] n g
    by simp
  have 3: "postfixLoop [''+'', ''4''] [''2'', ''3''] [''*''] = Inr [''2'', ''3'', ''*'', ''4'', ''+'']"
    using precedence_pops [of "''+''" "[''4'']" "[''2'', ''3'']" "[''*'']" a b c o1 o2] n p g
    by simp
  from 1 2 3 show ?thesis by simp
qed

section \<open>The evaluator\<close>

text \<open>
  Claim C4. \<^verbatim>\<open>5-3\<close> is 2, \<^verbatim>\<open>-5+3\<close> is -2, \<^verbatim>\<open>5--3\<close> is 8, \<^verbatim>\<open>-(2+3)\<close> is -5 and
  \<^verbatim>\<open>5-(2+3)\<close> is 0.
\<close>

theorem minus_folding:
  "evaluateExpression ''5-3'' = Inr (Fin 2)
   \<and> evaluateExpression ''-5+3'' = Inr (Fin (- 2))
   \<and> evaluateExpression ''5--3'' = Inr (Fin 8)
   \<and> evaluateExpression ''-(2+3)'' = Inr (Fin (- 5))
   \<and> evaluateExpression ''5-(2+3)'' = Inr (Fin 0)"
  using eval_5_minus_3 eval_neg5_plus_3 eval_5_minus_neg3 eval_neg_group eval_5_minus_group
  by simp

text \<open>
  Claim C1, at the input \<^verbatim>\<open>5/0\<close>. The divisor reaches \<^verbatim>\<open>operate['/']\<close> as the string
  \<^verbatim>\<open>"0"\<close>, which \<^verbatim>\<open>x === 0\<close> does not hold for: the quotient is \<^verbatim>\<open>Infinity\<close> and
  nothing is thrown. A divisor that was computed is a number, and is caught.
\<close>

theorem division_by_literal_zero:
  "evaluateExpression ''5/0'' = Inr PInf
   \<and> evaluateExpression ''5/(1-1)'' = Inl DivisionByZero"
  using eval_5_by_0 eval_5_by_computed_0 by simp

lemma math_round_cases:
  "(\<exists>k. math_round x = Fin (of_int k)) \<or> math_round x = PInf \<or> math_round x = NInf \<or> math_round x = NaN"
  by (cases x) auto

lemma roundedSolution_cases:
  "(\<exists>k. roundedSolution u = rnd (of_int k / 10000)) \<or> roundedSolution u = PInf \<or>
   roundedSolution u = NInf \<or> roundedSolution u = NaN"
  using math_round_cases [of "num_mul (toNumber u) (Fin 10000)"]
  by (auto simp: roundedSolution_def)

text \<open>
  Claim C9. The result of a successful evaluation is the value left on the stack, multiplied
  by 10000, rounded to the nearest integer and divided by 10000: an infinity, or the number
  nearest to an integer number of ten-thousandths. \<^verbatim>\<open>1/3\<close> is \<^verbatim>\<open>0.3333\<close>.
\<close>

theorem result_is_rounded:
  assumes "evaluateExpression input = Inr v"
  shows "(\<exists>postfixArray u.
            convertToPostfix input = Inr postfixArray \<and>
            evaluateLoop postfixArray [] = Inr [u] \<and>
            v = num_div (math_round (num_mul (toNumber u) (Fin 10000))) (Fin 10000))
         \<and> ((\<exists>k. v = rnd (of_int k / 10000)) \<or> v = PInf \<or> v = NInf)
         \<and> evaluateExpression ''1/3'' = Inr (stringToNumber ''0.3333'')"
proof -
  from assms obtain postfixArray postfixStack where
    c: "convertToPostfix input = Inr postfixArray" and
    e: "evaluateLoop postfixArray [] = Inr postfixStack" and
    l: "length postfixStack = 1" and
    n: "isNumber (Num v)" and
    v: "v = roundedSolution (bottom postfixStack)"
    by (auto simp: evaluateExpression_def Let_def split: sum.splits if_splits)
  from l obtain u where u: "postfixStack = [u]"
    by (cases postfixStack) auto
  from c e v u have first: "\<exists>postfixArray u.
      convertToPostfix input = Inr postfixArray \<and>
      evaluateLoop postfixArray [] = Inr [u] \<and>
      v = num_div (math_round (num_mul (toNumber u) (Fin 10000))) (Fin 10000)"
    by (auto simp: roundedSolution_def bottom_def)
  from n v roundedSolution_cases [of "bottom postfixStack"]
  have second: "(\<exists>k. v = rnd (of_int k / 10000)) \<or> v = PInf \<or> v = NInf"
    by (auto simp: isNumber_def)
  from first second eval_third show ?thesis by blast
qed

theorem result_is_rounded_witness:
  "evaluateExpression ''1/3'' = Inr (stringToNumber ''0.3333'') \<and>
   (\<exists>postfixArray u.
      convertToPostfix ''1/3'' = Inr postfixArray \<and>
      evaluateLoop postfixArray [] = Inr [u] \<and>
      stringToNumber ''0.3333'' =
        num_div (math_round (num_mul (toNumber u) (Fin 10000))) (Fin 10000))"
  using result_is_rounded [OF eval_third] by blast

text \<open>
  An input with a character that is neither white space nor a digit, a decimal point or one
  of \<^verbatim>\<open>+ - * / ( )\<close> fails with \<open>InvalidExpression\<close>.
\<close>

lemma disallowed_character_rejected:
  assumes "c \<in> set input" "\<not> isSpaceChar c" "c \<notin> set ''0123456789.+-*/()''"
  shows "evaluateExpression input = Inl InvalidExpression"
proof -
  from assms(3) have "c \<notin> set allowedElements"
    by (auto simp: allowedElements_def)
  from invalid_char [OF assms(1,2) this] show ?thesis
    by (simp add: evaluateExpression_def)
qed

text \<open>
  Claim C3, at the input \<^verbatim>\<open>(2)-(3)\<close>, a valid expression over the allowed characters
  with balanced parentheses. It is rejected: the \<^verbatim>\<open>-\<close> before a \<^verbatim>\<open>(\<close> becomes
  \<^verbatim>\<open>-1 *\<close>, and the \<^verbatim>\<open>+\<close> that makes it a subtraction is inserted after a number
  only, not after a \<^verbatim>\<open>)\<close>, so that two values are left on the stack. The branch for a
  \<^verbatim>\<open>-\<close> before a number does test for the \<^verbatim>\<open>)\<close>: \<^verbatim>\<open>(2)-3\<close> is -1, as is
  \<^verbatim>\<open>2-(3)\<close>.
\<close>

theorem group_minus_group_rejected:
  "getArrayOfTokens ''(2)-(3)'' = Inr [''('', ''2'', '')'', ''-'', ''('', ''3'', '')'']
   \<and> fixNegativeNumbers (fixParenthesesMultiplication
         [''('', ''2'', '')'', ''-'', ''('', ''3'', '')'']) =
       [''('', ''2'', '')'', ''-1'', ''*'', ''('', ''3'', '')'']
   \<and> convertToPostfix ''(2)-(3)'' = Inr [''2'', ''-1'', ''3'', ''*'']
   \<and> evaluateExpression ''(2)-(3)'' = Inl InvalidExpression
   \<and> evaluateExpression ''(2)-3'' = Inr (Fin (- 1))
   \<and> evaluateExpression ''2-(3)'' = Inr (Fin (- 1))"
  using tokens_group_minus_group normal_group_minus_group postfix_group_minus_group
    eval_group_minus_group eval_group_minus_3 eval_2_minus_group
  by simp

section \<open>Malformed numbers\<close>

text \<open>
  A run of characters that are not operators, with an operator or nothing on either side,
  is read as one token; reading it fails at the second decimal point, and the token is
  rejected when it ends in a decimal point.
\<close>

lemma readToken_run:
  assumes "\<forall>c\<in>set cs. \<not> isOperator (Str [c])" "rest = [] \<or> isOperator (Str [hd rest])"
  shows "readToken cur (cs @ rest) =
     (if (CHR ''.'' \<in> set cur \<and> CHR ''.'' \<in> set cs) \<or> 2 \<le> count_list cs CHR ''.''
      then Inl InvalidExpression else Inr (cur @ cs, rest))"
  using assms
proof (induction cs arbitrary: cur)
  case Nil
  then show ?case by (cases rest) auto
next
  case (Cons c cs)
  have one: "1 \<le> count_list cs CHR ''.'' \<longleftrightarrow> CHR ''.'' \<in> set cs"
    using count_list_0_iff [of cs "CHR ''.''"] by auto
  from Cons.prems have c: "\<not> isOperator (Str [c])" by simp
  from Cons.prems have IH: "readToken (cur @ [c]) (cs @ rest) =
     (if (CHR ''.'' \<in> set (cur @ [c]) \<and> CHR ''.'' \<in> set cs) \<or> 2 \<le> count_list cs CHR ''.''
      then Inl InvalidExpression else Inr ((cur @ [c]) @ cs, rest))"
    by (intro Cons.IH) auto
  show ?case
  proof (cases "c = CHR ''.''")
    case True
    with c IH one show ?thesis by auto
  next
    case False
    with c IH show ?thesis by auto
  qed
qed

lemma tokenLoop_run:
  assumes "num \<noteq> []" "\<forall>c\<in>set num. \<not> isOperator (Str [c])"
    "post = [] \<or> isOperator (Str [hd post])"
  shows "tokenLoop (num @ post) acc =
     (if 2 \<le> count_list num CHR ''.'' \<or> last num = CHR ''.'' then Inl InvalidExpression
      else tokenLoop post (acc @ [num]))"
proof -
  from assms(1) obtain c cs where num: "num = c # cs" by (cases num) auto
  have one: "1 \<le> count_list cs CHR ''.'' \<longleftrightarrow> CHR ''.'' \<in> set cs"
    using count_list_0_iff [of cs "CHR ''.''"] by auto
  from assms(2) num have c: "\<not> isOperator (Str [c])" and cs: "\<forall>c\<in>set cs. \<not> isOperator (Str [c])"
    by auto
  from readToken_run [OF cs assms(3), of "[c]"] one
  have r: "readToken [c] (cs @ post) =
     (if 2 \<le> count_list (c # cs) CHR ''.'' then Inl InvalidExpression else Inr (c # cs, post))"
    by auto
  show ?thesis
    unfolding num using c r by simp
qed

lemma readToken_error: "readToken cur s = Inl e \<Longrightarrow> e = InvalidExpression"
  by (induction s arbitrary: cur) (auto split: if_splits)

lemma tokenLoop_prefix:
  assumes "pre = [] \<or> isOperator (Str [last pre])"
  shows "tokenLoop (pre @ s) acc = Inl InvalidExpression \<or>
         (\<exists>acc'. tokenLoop (pre @ s) acc = tokenLoop s acc')"
  using assms
proof (induction "length pre" arbitrary: pre acc rule: less_induct)
  case less
  show ?case
  proof (cases pre)
    case Nil
    then show ?thesis by auto
  next
    case (Cons c pre')
    show ?thesis
    proof (cases "isOperator (Str [c])")
      case True
      from less.prems Cons have "pre' = [] \<or> isOperator (Str [last pre'])"
        by (auto split: if_splits)
      from less.hyps [OF _ this, of "acc @ [[c]]"] Cons True show ?thesis by simp
    next
      case False
      define run where "run = takeWhile (\<lambda>c. \<not> isOperator (Str [c])) pre"
      define pre'' where "pre'' = dropWhile (\<lambda>c. \<not> isOperator (Str [c])) pre"
      have pre: "pre = run @ pre''" by (simp add: run_def pre''_def)
      from False Cons have run: "run \<noteq> []" by (simp add: run_def)
      have nonop: "\<forall>c\<in>set run. \<not> isOperator (Str [c])"
        unfolding run_def by (auto dest: set_takeWhileD)
      from less.prems Cons have lastop: "isOperator (Str [last pre])" by simp
      have ne: "pre'' \<noteq> []"
      proof
        assume "pre'' = []"
        then have "\<forall>c\<in>set pre. \<not> isOperator (Str [c])"
          by (simp add: pre''_def)
        moreover from Cons have "last pre \<in> set pre" by simp
        ultimately show False using lastop by blast
      qed
      then have hd: "isOperator (Str [hd pre''])"
        unfolding pre''_def using hd_dropWhile by blast
      from ne pre have last: "last pre'' = last pre" by (metis last_appendR)
      from ne hd have boundary: "pre'' @ s = [] \<or> isOperator (Str [hd (pre'' @ s)])" by simp
      from run pre have shorter: "length pre'' < length pre" by (cases run) auto
      from last lastop have "pre'' = [] \<or> isOperator (Str [last pre''])" by simp
      from less.hyps [OF shorter this, of "acc @ [run]"]
        tokenLoop_run [OF run nonop boundary, of acc]
      show ?thesis unfolding pre by (auto split: if_splits)
    qed
  qed
qed

lemma malformed_number:
  assumes "removeSpaces input = pre @ num @ post"
    and "pre = [] \<or> isOperator (Str [last pre])"
    and "num \<noteq> []" and "\<forall>c\<in>set num. \<not> isOperator (Str [c])"
    and "post = [] \<or> isOperator (Str [hd post])"
    and "2 \<le> count_list num CHR ''.'' \<or> last num = CHR ''.''"
  shows "getArrayOfTokens input = Inl InvalidExpression"
proof -
  from tokenLoop_run [OF assms(3,4,5)] assms(6)
  have bad: "tokenLoop (num @ post) acc = Inl InvalidExpression" for acc by simp
  from tokenLoop_prefix [OF assms(2), of "num @ post" "[]"] bad
  have "tokenLoop (pre @ num @ post) [] = Inl InvalidExpression" by auto
  with assms(1) show ?thesis by (simp add: getArrayOfTokens_def)
qed

lemma validateInput_error: "validateInput input = Inl e \<Longrightarrow> e = InvalidExpression"
  by (auto simp: validateInput_def split: sum.splits if_splits dest: scanParentheses_error)

text \<open>
  Claim C8. When the input without its white space has a maximal run of non-operator
  characters (a number token) with two decimal points, or ending in a decimal point, the
  tokenizer fails with \<open>InvalidExpression\<close>, and so does the evaluation. \<^verbatim>\<open>1.5+2.25\<close>
  is 3.75; \<^verbatim>\<open>1..5\<close> and \<^verbatim>\<open>1.+2\<close> fail with \<open>InvalidExpression\<close>.
\<close>

theorem malformed_number_rejected:
  assumes "removeSpaces input = pre @ num @ post"
    and "pre = [] \<or> isOperator (Str [last pre])"
    and "num \<noteq> []" and "\<forall>c\<in>set num. \<not> isOperator (Str [c])"
    and "post = [] \<or> isOperator (Str [hd post])"
    and "2 \<le> count_list num CHR ''.'' \<or> last num = CHR ''.''"
  shows "getArrayOfTokens input = Inl InvalidExpression
    \<and> evaluateExpression input = Inl InvalidExpression
    \<and> evaluateExpression ''1.5+2.25'' = Inr (Fin (15 / 4))
    \<and> evaluateExpression ''1..5'' = Inl InvalidExpression
    \<and> evaluateExpression ''1.+2'' = Inl InvalidExpression"
proof -
  have t: "getArrayOfTokens input = Inl InvalidExpression"
    using assms by (rule malformed_number)
  have "evaluateExpression input = Inl InvalidExpression"
  proof (cases "validateInput input")
    case (Inl e)
    with validateInput_error [OF Inl] show ?thesis by (simp add: evaluateExpression_def)
  next
    case (Inr u)
    with t show ?thesis by (simp add: evaluateExpression_def convertToPostfix_def)
  qed
  with t eval_decimals eval_two_points eval_trailing_point show ?thesis by simp
qed

theorem malformed_number_rejected_witness:
  "getArrayOfTokens ''3*1.5.2+4'' = Inl InvalidExpression \<and>
   evaluateExpression ''3*1.5.2+4'' = Inl InvalidExpression"
proof -
  have h1: "removeSpaces ''3*1.5.2+4'' = ''3*'' @ ''1.5.2'' @ ''+4''" by code_simp
  have h2: "''3*'' = [] \<or> isOperator (Str [last ''3*''])" by code_simp
  have h3: "''1.5.2'' \<noteq> []" by simp
  have h4: "\<forall>c\<in>set ''1.5.2''. \<not> isOperator (Str [c])" by code_simp
  have h5: "''+4'' = [] \<or> isOperator (Str [hd ''+4''])" by code_simp
  have h6: "2 \<le> count_list ''1.5.2'' CHR ''.'' \<or> last ''1.5.2'' = CHR ''.''" by simp
  from malformed_number_rejected [OF h1 h2 h3 h4 h5 h6] show ?thesis by simp
qed

section \<open>Numbers as strings\<close>

text \<open>\<^verbatim>\<open>String\<close> of a number is never the one-character string \<^verbatim>\<open>-\<close>.\<close>

lemma intToString_nonempty: "intToString s \<noteq> []"
  by (subst intToString.simps) simp

lemma intToString_not_minus:
  assumes "0 \<le> s"
  shows "intToString s \<noteq> ''-''"
proof (cases "s < 10")
  case True
  have "char_of (48 + s) \<noteq> CHR ''-''"
  proof
    assume "char_of (48 + s) = CHR ''-''"
    then have "of_char (char_of (48 + s)) = (of_char CHR ''-'' :: int)" by simp
    then have "(48 + s) mod 256 = 45" by simp
    with assms True show False by simp
  qed
  with True show ?thesis by (subst intToString.simps) simp
next
  case False
  then have "intToString s = intToString (s div 10) @ [char_of (48 + s mod 10)]"
    by (subst intToString.simps) simp
  with intToString_nonempty [of "s div 10"] show ?thesis
    by (cases "intToString (s div 10)") auto
qed

lemma pow10_pos: "0 < pow10 e"
  by (simp add: pow10_def)

lemma candidates_pos: "c \<in> set (candidates x k) \<Longrightarrow> 1 \<le> fst c"
proof -
  assume "c \<in> set (candidates x k)"
  then have "10 ^ (k - 1) \<le> fst c" by (auto simp: candidates_def)
  moreover have "(1::int) \<le> 10 ^ (k - 1)" by simp
  ultimately show ?thesis by linarith
qed

lemma foldl_closer_in: "foldl (closer x k) c cs \<in> set (c # cs)"
proof (induction cs arbitrary: c)
  case Nil
  then show ?case by simp
next
  case (Cons c' cs)
  have "closer x k c c' = c \<or> closer x k c c' = c'"
    by (simp add: closer_def Let_def)
  with Cons [of "closer x k c c'"] show ?case by auto
qed

lemma shortestDigits_nonneg:
  assumes "0 < x"
  shows "0 \<le> fst (shortestDigits ks x)"
proof (induction ks)
  case Nil
  from assms pow10_pos have "0 \<le> x / pow10 (ilog10 x + 1 - 17)"
    by (simp add: less_imp_le)
  then show ?case by simp
next
  case (Cons k ks)
  show ?case
  proof (cases "candidates x k")
    case Nil
    with Cons show ?thesis by simp
  next
    case (Cons c cs)
    from foldl_closer_in [of x k c cs] Cons
    have "foldl (closer x k) c cs \<in> set (candidates x k)" by simp
    from candidates_pos [OF this] Cons show ?thesis by simp
  qed
qed

lemma positiveToString_not_minus:
  assumes "0 < x"
  shows "positiveToString x \<noteq> ''-''" and "positiveToString x \<noteq> []"
proof -
  obtain s k n where d: "shortestDigits [1, 2, 3, 4, 5, 6, 7, 8, 9, 10, 11, 12, 13, 14, 15, 16, 17] x = (s, k, n)"
    by (cases "shortestDigits [1, 2, 3, 4, 5, 6, 7, 8, 9, 10, 11, 12, 13, 14, 15, 16, 17] x") auto
  from shortestDigits_nonneg [OF assms, of "[1, 2, 3, 4, 5, 6, 7, 8, 9, 10, 11, 12, 13, 14, 15, 16, 17]"] d
  have s: "0 \<le> s" by simp
  obtain ds where ds: "ds = intToString s" by simp
  from intToString_not_minus [OF s] intToString_nonempty [of s] ds
  have m: "ds \<noteq> ''-''" and e: "ds \<noteq> []" by simp_all
  have a: "ds @ zs \<noteq> ''-''" if "zs = replicate j CHR ''0''" for zs j
    using m e that by (cases ds; cases j) auto
  have b: "take j ds @ ''.'' @ zs \<noteq> ''-''" for j zs
    by (cases "take j ds") auto
  have c: "ds @ CHR ''e'' # zs \<noteq> ''-''" for zs
    using e by (cases ds) auto
  show "positiveToString x \<noteq> ''-''"
    unfolding positiveToString_def d using a b c ds
    by (auto simp: Let_def simp del: replicate.simps)
  show "positiveToString x \<noteq> []"
    unfolding positiveToString_def d using e ds
    by (auto simp: Let_def)
qed

lemma numberToString_not_minus: "numberToString x \<noteq> ''-''"
proof (cases x)
  case (Fin r)
  show ?thesis
  proof (cases "r = 0")
    case True
    with Fin show ?thesis by simp
  next
    case nz: False
    show ?thesis
    proof (cases "r < 0")
      case True
      with positiveToString_not_minus(2) [of "- r"] Fin show ?thesis by simp
    next
      case False
      with nz have "0 < r" by simp
      from positiveToString_not_minus(1) [OF this] False nz Fin show ?thesis by simp
    qed
  qed
qed simp_all

lemma negate_not_minus: "negate v \<noteq> ''-''"
  by (simp add: negate_def numberToString_not_minus)

section \<open>The splicing loops are the folds\<close>

lemma elementAt_here [simp]: "elementAt (seen @ t # ts) (int (length seen)) = Str t"
  by (simp add: elementAt_def)

lemma elementAt_next [simp]: "elementAt (seen @ t # u # ts) (int (length seen) + 1) = Str u"
  by (simp add: elementAt_def nth_append nat_add_distrib)

lemma elementAt_end [simp]: "elementAt (seen @ [t]) (int (length seen) + 1) = Undefined"
  by (simp add: elementAt_def)

lemma elementAt_previous [simp]:
  "elementAt (seen @ rest) (int (length seen) - 1) = previous seen"
proof (cases "seen = []")
  case True
  then show ?thesis by (simp add: elementAt_def previous_def)
next
  case False
  then have "nat (int (length seen) - 1) = length seen - 1" by simp
  with False show ?thesis
    by (simp add: elementAt_def previous_def nth_append last_conv_nth)
qed

lemma update_here [simp]: "(seen @ t # ts)[length seen := x] = seen @ x # ts"
  by (simp add: list_update_append)

lemma update_next [simp]: "(seen @ t # u # ts)[Suc (length seen) := x] = seen @ t # x # ts"
  by (simp add: list_update_append)

lemma insertAt_here [simp]: "insertAt (seen @ rest) (length seen) x = seen @ x # rest"
  by (simp add: insertAt_def)

lemma insertAt_next [simp]: "insertAt (seen @ t # rest) (Suc (length seen)) x = seen @ t # x # rest"
  by (simp add: insertAt_def)

lemma removeAt_here [simp]: "removeAt (seen @ t # rest) (length seen) = seen @ rest"
  by (simp add: removeAt_def)

lemma previous_snoc [simp]: "previous (seen @ [t]) = Str t"
  by (simp add: previous_def)

lemma isNumber_Undefined [simp]: "\<not> isNumber Undefined"
  by (simp add: isNumber_def)

lemma fixNegativeLoop_end: "fixNegativeLoop seen (length seen) = seen"
  by (subst fixNegativeLoop.simps) simp

lemma fixNegativeLoop_skip:
  "t \<noteq> ''-'' \<Longrightarrow>
   fixNegativeLoop (seen @ t # ts) (length seen) = fixNegativeLoop ((seen @ [t]) @ ts) (length (seen @ [t]))"
  by (subst fixNegativeLoop.simps) simp

lemma fixNegativeLoop_negFold:
  "previous seen = p \<Longrightarrow> fixNegativeLoop (seen @ rest) (length seen) = seen @ negFold p rest"
proof (induction p rest arbitrary: seen rule: negFold.induct)
  case (1 p)
  show ?case by (simp add: fixNegativeLoop_end)
next
  case (2 p t)
  have "fixNegativeLoop (seen @ [t]) (length seen) = fixNegativeLoop (seen @ [t]) (length (seen @ [t]))"
    by (subst fixNegativeLoop.simps) simp
  then show ?case by (simp only: fixNegativeLoop_end) simp
next
  case (3 p t u ts)
  show ?case
  proof (cases "t = ''-'' \<and> u = ''(''")
    case True
    show ?thesis
    proof (cases "isNumber p")
      case num: True
      have "fixNegativeLoop (seen @ t # u # ts) (length seen) =
            fixNegativeLoop ((seen @ [''+'', ''-1'']) @ ''*'' # u # ts) (length (seen @ [''+'', ''-1'']))"
        using True num "3.prems" by (subst fixNegativeLoop.simps) (simp add: Let_def)
      also have "\<dots> = fixNegativeLoop ((seen @ [''+'', ''-1'', ''*'']) @ u # ts)
                         (length (seen @ [''+'', ''-1'', ''*'']))"
        using fixNegativeLoop_skip [of "''*''" "seen @ [''+'', ''-1'']" "u # ts"] by simp
      also have "\<dots> = (seen @ [''+'', ''-1'', ''*'']) @ negFold (Str ''*'') (u # ts)"
        using True by (intro "3.IH"(1)) (simp_all add: previous_def)
      finally show ?thesis using True num by simp
    next
      case num: False
      have "fixNegativeLoop (seen @ t # u # ts) (length seen) =
            fixNegativeLoop ((seen @ [''-1'']) @ ''*'' # u # ts) (length (seen @ [''-1'']))"
        using True num "3.prems" by (subst fixNegativeLoop.simps) (simp add: Let_def)
      also have "\<dots> = fixNegativeLoop ((seen @ [''-1'', ''*'']) @ u # ts)
                         (length (seen @ [''-1'', ''*'']))"
        using fixNegativeLoop_skip [of "''*''" "seen @ [''-1'']" "u # ts"] by simp
      also have "\<dots> = (seen @ [''-1'', ''*'']) @ negFold (Str ''*'') (u # ts)"
        using True by (intro "3.IH"(1)) (simp_all add: previous_def)
      finally show ?thesis using True num by simp
    qed
  next
    case notParen: False
    show ?thesis
    proof (cases "t = ''-'' \<and> isNumber (Str u)")
      case True
      define n where "n = negate (Str u)"
      have n: "n \<noteq> ''-''" by (simp add: n_def negate_not_minus)
      show ?thesis
      proof (cases "isNumber p \<or> p = Str '')''")
        case plus: True
        have "fixNegativeLoop (seen @ t # u # ts) (length seen) =
              fixNegativeLoop ((seen @ [''+'']) @ n # ts) (length (seen @ [''+'']))"
          using True notParen plus "3.prems"
          by (subst fixNegativeLoop.simps) (auto simp: Let_def n_def)
        also have "\<dots> = fixNegativeLoop ((seen @ [''+'', n]) @ ts) (length (seen @ [''+'', n]))"
          using fixNegativeLoop_skip [OF n, of "seen @ [''+'']" ts] by simp
        also have "\<dots> = (seen @ [''+'', n]) @ negFold (Str n) ts"
          using True notParen unfolding n_def by (intro "3.IH"(2)) (simp_all add: previous_def)
        finally show ?thesis using True notParen plus by (simp add: n_def)
      next
        case plus: False
        have "fixNegativeLoop (seen @ t # u # ts) (length seen) =
              fixNegativeLoop ((seen @ [n]) @ ts) (length (seen @ [n]))"
          using True notParen plus "3.prems"
          by (subst fixNegativeLoop.simps) (auto simp: Let_def n_def)
        also have "\<dots> = (seen @ [n]) @ negFold (Str n) ts"
          using True notParen unfolding n_def by (intro "3.IH"(2)) (simp_all add: previous_def)
        finally show ?thesis using True notParen plus by (simp add: n_def)
      qed
    next
      case False
      have "fixNegativeLoop (seen @ t # u # ts) (length seen) =
            fixNegativeLoop ((seen @ [t]) @ u # ts) (length (seen @ [t]))"
        using False notParen by (subst fixNegativeLoop.simps) auto
      also have "\<dots> = (seen @ [t]) @ negFold (Str t) (u # ts)"
        using False notParen by (intro "3.IH"(3)) (simp_all add: previous_def)
      finally have loop: "fixNegativeLoop (seen @ t # u # ts) (length seen) =
            (seen @ [t]) @ negFold (Str t) (u # ts)" .
      from False notParen have "negFold p (t # u # ts) = t # negFold (Str t) (u # ts)"
        by auto
      with loop show ?thesis by simp
    qed
  qed
qed

lemma fixNegativeNumbers_negFold: "fixNegativeNumbers ts = negFold Undefined ts"
  using fixNegativeLoop_negFold [of "[]" Undefined ts]
  by (simp add: fixNegativeNumbers_def previous_def)

lemma not_numbers [simp]:
  "\<not> isNumber (Str ''*'')" "\<not> isNumber (Str ''('')" "\<not> isNumber (Str '')'')"
  "\<not> isNumber (Str ''-'')"
  by code_simp+

lemma previous_last: "seen \<noteq> [] \<Longrightarrow> previous seen = Str (last seen)"
  by (simp add: previous_def)

lemma fixParenthesesLoop_end: "fixParenthesesLoop seen (length seen) = seen"
  by (subst fixParenthesesLoop.simps) simp

lemma fixParenthesesLoop_last: "fixParenthesesLoop (seen @ [t]) (length seen) = seen @ [t]"
  by (subst fixParenthesesLoop.simps) simp

lemma fixParenthesesLoop_times:
  "fixParenthesesLoop (seen @ ''*'' # u # ts) (length seen) =
   fixParenthesesLoop ((seen @ [''*'']) @ u # ts) (length (seen @ [''*'']))"
  by (subst fixParenthesesLoop.simps) simp

lemma fixParenthesesLoop_parenFold:
  "seen \<noteq> [] \<Longrightarrow> last seen = p \<Longrightarrow>
   fixParenthesesLoop (seen @ rest) (length seen) = seen @ parenFold p rest"
proof (induction p rest arbitrary: seen rule: parenFold.induct)
  case (1 p)
  show ?case by (simp add: fixParenthesesLoop_end)
next
  case (2 p t)
  show ?case by (simp add: fixParenthesesLoop_last)
next
  case (3 p t u ts)
  from "3.prems" have prev: "previous seen = Str p" by (simp add: previous_last)
  show ?case
  proof (cases "t = '')'' \<and> (u = ''('' \<or> isNumber (Str u))")
    case True
    have "fixParenthesesLoop (seen @ t # u # ts) (length seen) =
          fixParenthesesLoop ((seen @ [t]) @ ''*'' # u # ts) (length (seen @ [t]))"
      using True by (subst fixParenthesesLoop.simps) auto
    also have "\<dots> = fixParenthesesLoop ((seen @ [t, ''*'']) @ u # ts) (length (seen @ [t, ''*'']))"
      using fixParenthesesLoop_times [of "seen @ [t]" u ts] by simp
    also have "\<dots> = (seen @ [t, ''*'']) @ parenFold ''*'' (u # ts)"
    proof (cases "u = ''(''")
      case True
      with \<open>t = '')'' \<and> (u = ''('' \<or> isNumber (Str u))\<close> show ?thesis
        by (intro "3.IH"(1)) simp_all
    next
      case False
      with True show ?thesis
        by (intro "3.IH"(3)) auto
    qed
    finally have loop: "fixParenthesesLoop (seen @ t # u # ts) (length seen) =
          (seen @ [t, ''*'']) @ parenFold ''*'' (u # ts)" .
    from True have "parenFold p (t # u # ts) = t # ''*'' # parenFold ''*'' (u # ts)" by auto
    with loop show ?thesis by simp
  next
    case notClose: False
    show ?thesis
    proof (cases "t = ''('' \<and> isNumber (Str p)")
      case True
      have "fixParenthesesLoop (seen @ t # u # ts) (length seen) =
            fixParenthesesLoop ((seen @ [''*'', t]) @ u # ts) (length (seen @ [''*'', t]))"
        using True prev by (subst fixParenthesesLoop.simps) auto
      also have "\<dots> = (seen @ [''*'', t]) @ parenFold t (u # ts)"
        using True by (intro "3.IH"(2)) auto
      finally have loop: "fixParenthesesLoop (seen @ t # u # ts) (length seen) =
            (seen @ [''*'', t]) @ parenFold t (u # ts)" .
      from True have "parenFold p (t # u # ts) = ''*'' # t # parenFold t (u # ts)" by auto
      with loop show ?thesis by simp
    next
      case False
      have "fixParenthesesLoop (seen @ t # u # ts) (length seen) =
            fixParenthesesLoop ((seen @ [t]) @ u # ts) (length (seen @ [t]))"
        using False notClose prev by (subst fixParenthesesLoop.simps) auto
      also have "\<dots> = (seen @ [t]) @ parenFold t (u # ts)"
        using False notClose by (intro "3.IH"(4)) auto
      finally have loop: "fixParenthesesLoop (seen @ t # u # ts) (length seen) =
            (seen @ [t]) @ parenFold t (u # ts)" .
      from False notClose have "parenFold p (t # u # ts) = t # parenFold t (u # ts)" by auto
      with loop show ?thesis by simp
    qed
  qed
qed

lemma fixParenthesesMultiplication_parenFold:
  "fixParenthesesMultiplication (t # ts) = t # parenFold t ts"
  using fixParenthesesLoop_parenFold [of "[t]" t ts]
  by (simp add: fixParenthesesMultiplication_def)

lemma fixParenthesesMultiplication_Nil: "fixParenthesesMultiplication [] = []"
  unfolding fixParenthesesMultiplication_def by (subst fixParenthesesLoop.simps) simp

lemma parenFold_cong:
  "isNumber (Str p) = isNumber (Str q) \<Longrightarrow> parenFold p xs = parenFold q xs"
  by (cases "(p, xs)" rule: parenFold.cases) auto

lemma parenFold_insertTimes:
  "p \<noteq> '')'' \<Longrightarrow> last (p # rest) \<noteq> ''('' \<Longrightarrow> p # parenFold p rest = insertTimes (p # rest)"
proof (induction rest arbitrary: p)
  case Nil
  then show ?case by simp
next
  case (Cons t rest)
  show ?case
  proof (cases rest)
    case Nil
    with Cons.prems show ?thesis by (auto simp: needsTimes_def)
  next
    case (Cons u ts)
    have star: "parenFold ''*'' (u # ts) = insertTimes (u # ts)"
    proof -
      from Cons.prems Cons have "last (''*'' # u # ts) \<noteq> ''(''" by simp
      from Cons.IH [of "''*''"] this Cons
      have "''*'' # parenFold ''*'' (u # ts) = insertTimes (''*'' # u # ts)" by simp
      then show ?thesis by (simp add: needsTimes_def)
    qed
    show ?thesis
    proof (cases "t = '')''")
      case True
      have close: "parenFold '')'' (u # ts) = parenFold ''*'' (u # ts)"
        by (rule parenFold_cong) simp
      from True Cons.prems star close show ?thesis
        unfolding Cons by (auto simp: needsTimes_def)
    next
      case False
      from Cons.prems Cons have "last (t # u # ts) \<noteq> ''(''" by simp
      from Cons.IH [OF False] this Cons
      have "t # parenFold t (u # ts) = insertTimes (t # u # ts)" by simp
      with False Cons.prems show ?thesis
        unfolding Cons by (auto simp: needsTimes_def)
    qed
  qed
qed

lemma fixParentheses_insertTimes:
  assumes "ts \<noteq> []" "hd ts \<noteq> '')''" "last ts \<noteq> ''(''"
  shows "fixParenthesesMultiplication ts = insertTimes ts"
proof -
  from assms(1) obtain t rest where ts: "ts = t # rest" by (cases ts) auto
  with assms parenFold_insertTimes [of t rest] show ?thesis
    by (simp add: fixParenthesesMultiplication_parenFold)
qed

lemma minusFollowed_tl: "minusFollowed (u # ts) \<Longrightarrow> minusFollowed ts"
  by (cases ts) auto

lemma minusFollowed_parenFold:
  "minusFollowed (p # rest) \<Longrightarrow> minusFollowed (p # parenFold p rest)"
proof (induction p rest rule: parenFold.induct)
  case (1 p)
  then show ?case by simp
next
  case (2 p t)
  then show ?case by simp
next
  case (3 p t u ts)
  from "3.prems" have tail: "minusFollowed (t # u # ts)" and
    first: "p = ''-'' \<longrightarrow> t = ''('' \<or> isNumber (Str t)" by auto
  from tail have tail2: "minusFollowed (u # ts)" by (rule minusFollowed_tl)
  show ?case
  proof (cases "t = '')'' \<and> (u = ''('' \<or> isNumber (Str u))")
    case True
    from tail2 have "minusFollowed (''*'' # u # ts)" by simp
    with True "3.IH"(1,3) have "minusFollowed (''*'' # parenFold ''*'' (u # ts))" by auto
    with True first show ?thesis by auto
  next
    case notClose: False
    show ?thesis
    proof (cases "t = ''('' \<and> isNumber (Str p)")
      case True
      then have "p \<noteq> ''-''" by auto
      moreover from True notClose tail "3.IH"(2) have "minusFollowed (t # parenFold t (u # ts))"
        by auto
      ultimately show ?thesis using True notClose by auto
    next
      case False
      with notClose tail "3.IH"(4) have "minusFollowed (t # parenFold t (u # ts))" by auto
      with False notClose first show ?thesis by auto
    qed
  qed
qed

lemma minusFollowed_fixParentheses:
  "minusFollowed ts \<Longrightarrow> minusFollowed (fixParenthesesMultiplication ts)"
  by (cases ts)
     (simp_all add: fixParenthesesMultiplication_Nil fixParenthesesMultiplication_parenFold
        minusFollowed_parenFold)

lemma negFold_no_minus: "minusFollowed rest \<Longrightarrow> ''-'' \<notin> set (negFold p rest)"
proof (induction p rest rule: negFold.induct)
  case (1 p)
  then show ?case by simp
next
  case (2 p t)
  then show ?case by simp
next
  case (3 p t u ts)
  from "3.prems" have tail: "minusFollowed (u # ts)" by simp
  then have tail2: "minusFollowed ts" by (rule minusFollowed_tl)
  show ?case
  proof (cases "t = ''-'' \<and> u = ''(''")
    case True
    with tail "3.IH"(1) show ?thesis by auto
  next
    case notParen: False
    show ?thesis
    proof (cases "t = ''-'' \<and> isNumber (Str u)")
      case True
      with notParen tail2 "3.IH"(2) negate_not_minus [of "Str u"] show ?thesis
        by (auto simp: eq_commute [of "''-''"])
    next
      case False
      with notParen "3.prems" have "t \<noteq> ''-''" by auto
      with False notParen tail "3.IH"(3) show ?thesis by auto
    qed
  qed
qed

lemma popToParenthesis_set:
  "popToParenthesis operatorStack postfixArray = Inr (operatorStack', postfixArray') \<Longrightarrow>
   set operatorStack' \<union> set postfixArray' \<subseteq> set operatorStack \<union> set postfixArray"
proof (induction operatorStack arbitrary: postfixArray)
  case Nil
  then show ?case by simp
next
  case (Cons a operatorStack)
  show ?case
  proof (cases "a = ''(''")
    case True
    with Cons.prems show ?thesis by auto
  next
    case False
    with Cons.prems have "popToParenthesis operatorStack (postfixArray @ [a]) =
      Inr (operatorStack', postfixArray')" by simp
    from Cons.IH [OF this] show ?thesis by auto
  qed
qed

lemma popHigher_set:
  "popHigher token operatorStack postfixArray = (operatorStack', postfixArray') \<Longrightarrow>
   set operatorStack' \<union> set postfixArray' \<subseteq> set operatorStack \<union> set postfixArray"
proof (induction operatorStack arbitrary: postfixArray)
  case Nil
  then show ?case by simp
next
  case (Cons a operatorStack)
  show ?case
  proof (cases "geq (precedence a) (precedence token)")
    case True
    with Cons.prems have "popHigher token operatorStack (postfixArray @ [a]) =
      (operatorStack', postfixArray')" by simp
    from Cons.IH [OF this] show ?thesis by auto
  next
    case False
    with Cons.prems show ?thesis by auto
  qed
qed

lemma postfixLoop_set:
  "postfixLoop tokenArray postfixArray operatorStack = Inr result \<Longrightarrow>
   set result \<subseteq> set tokenArray \<union> set postfixArray \<union> set operatorStack"
proof (induction tokenArray arbitrary: postfixArray operatorStack)
  case Nil
  then show ?case by auto
next
  case (Cons token tokenArray)
  show ?case
  proof (cases "\<not> isOperator (Str token)")
    case True
    with Cons.prems Cons.IH [of "postfixArray @ [token]" operatorStack] show ?thesis by auto
  next
    case op: False
    show ?thesis
    proof (cases "token = ''(''")
      case True
      with op Cons.prems Cons.IH [of postfixArray "token # operatorStack"] show ?thesis by auto
    next
      case notOpen: False
      show ?thesis
      proof (cases "token = '')''")
        case True
        with op notOpen Cons.prems obtain st pf where
          p: "popToParenthesis operatorStack postfixArray = Inr (st, pf)" and
          l: "postfixLoop tokenArray pf st = Inr result"
          by (auto split: sum.splits)
        from popToParenthesis_set [OF p] Cons.IH [OF l] show ?thesis by auto
      next
        case False
        obtain st pf where p: "popHigher token operatorStack postfixArray = (st, pf)"
          by (cases "popHigher token operatorStack postfixArray") auto
        with op notOpen False Cons.prems have l: "postfixLoop tokenArray pf (token # st) = Inr result"
          by auto
        from popHigher_set [OF p] Cons.IH [OF l] show ?thesis by auto
      qed
    qed
  qed
qed

section \<open>Tokens of a validated input\<close>

text \<open>
  The first token of a validated input is not a \<^verbatim>\<open>)\<close> and its last token is not a
  \<^verbatim>\<open>(\<close>: these are the two places the loop of \<^verbatim>\<open>fixParenthesesMultiplication\<close>
  does not look at.
\<close>

lemma nesting_append: "nesting (xs @ ys) = nesting xs + nesting ys"
  by (simp add: nesting_def)

lemma nesting_removeSpaces: "nesting (removeSpaces xs) = nesting xs"
proof -
  have "filter (\<lambda>c. c = CHR ''('') (removeSpaces xs) = filter (\<lambda>c. c = CHR ''('') xs"
    unfolding removeSpaces_def filter_filter
    by (rule filter_cong) (auto simp: isSpaceChar_def)
  moreover have "filter (\<lambda>c. c = CHR '')'') (removeSpaces xs) = filter (\<lambda>c. c = CHR '')'') xs"
    unfolding removeSpaces_def filter_filter
    by (rule filter_cong) (auto simp: isSpaceChar_def)
  ultimately show ?thesis by (simp add: nesting_def)
qed

lemma take_filter_ex: "\<exists>n\<le>length xs. take m (filter P xs) = filter P (take n xs)"
proof (induction xs arbitrary: m)
  case Nil
  then show ?case by simp
next
  case (Cons x xs)
  show ?case
  proof (cases "P x")
    case True
    show ?thesis
    proof (cases m)
      case 0
      then show ?thesis by (intro exI [of _ 0]) simp
    next
      case (Suc m')
      from Cons [of m'] obtain n where "n \<le> length xs" "take m' (filter P xs) = filter P (take n xs)"
        by blast
      with True Suc show ?thesis by (intro exI [of _ "Suc n"]) simp
    qed
  next
    case False
    from Cons [of m] obtain n where "n \<le> length xs" "take m (filter P xs) = filter P (take n xs)"
      by blast
    with False show ?thesis by (intro exI [of _ "Suc n"]) simp
  qed
qed

lemma validated_prefix:
  assumes "validateInput input = Inr ()"
  shows "0 \<le> nesting (take m (removeSpaces input))" and "nesting (removeSpaces input) = 0"
proof -
  from assms validateInput_char [of input]
  have pre: "\<forall>n\<le>length input. 0 \<le> nesting (take n input)" and tot: "nesting input = 0"
    by (auto split: if_splits simp: not_less)
  from take_filter_ex [of input m "\<lambda>c. \<not> isSpaceChar c"] obtain n where
    "n \<le> length input" "take m (removeSpaces input) = removeSpaces (take n input)"
    by (auto simp: removeSpaces_def)
  with pre nesting_removeSpaces [of "take n input"] show "0 \<le> nesting (take m (removeSpaces input))"
    by simp
  from tot show "nesting (removeSpaces input) = 0" by (simp add: nesting_removeSpaces)
qed

lemma readToken_nonempty:
  "readToken cur s = Inr (tok, rest) \<Longrightarrow> cur \<noteq> [] \<Longrightarrow> tok \<noteq> []"
  by (induction s arbitrary: cur) (auto split: if_splits)

lemma tokenLoop_nonempty:
  "tokenLoop s acc = Inr ts \<Longrightarrow> [] \<notin> set acc \<Longrightarrow> [] \<notin> set ts"
proof (induction s acc rule: tokenLoop.induct)
  case (1 tokenArray)
  then show ?case by simp
next
  case (2 currToken rest tokenArray)
  show ?case
  proof (cases "isOperator (Str [currToken])")
    case True
    with 2 show ?thesis by simp
  next
    case False
    with "2.prems" obtain tok rest' where
      r: "readToken [currToken] rest = Inr (tok, rest')" and
      l: "last tok \<noteq> CHR ''.''" and
      t: "tokenLoop rest' (tokenArray @ [tok]) = Inr ts"
      by (auto split: sum.splits if_splits)
    from readToken_nonempty [OF r] have "tok \<noteq> []" by simp
    with "2.IH"(2) [OF False r refl l t] "2.prems"(2) show ?thesis by auto
  qed
qed

lemma validated_tokens:
  assumes "validateInput input = Inr ()" "getArrayOfTokens input = Inr ts" "ts \<noteq> []"
  shows "hd ts \<noteq> '')''" and "last ts \<noteq> ''(''"
proof -
  let ?s = "removeSpaces input"
  from assms(2) have c: "concat ts = ?s" by (rule tokens_partition_input)
  from assms(2) have ne: "[] \<notin> set ts"
    unfolding getArrayOfTokens_def by (rule tokenLoop_nonempty) simp
  show "hd ts \<noteq> '')''"
  proof
    assume h: "hd ts = '')''"
    with assms(3) obtain rest where "ts = '')'' # rest" by (cases ts) auto
    with c have "take 1 ?s = '')''" by (metis append_Cons append_Nil concat.simps(2) take_Suc_Cons take_0 One_nat_def)
    with validated_prefix(1) [OF assms(1), of 1] show False by simp
  qed
  show "last ts \<noteq> ''(''"
  proof
    assume "last ts = ''(''"
    with assms(3) have "ts = butlast ts @ [''('']" by (metis append_butlast_last_id)
    then have "concat ts = concat (butlast ts) @ ''(''" by (metis concat.simps concat_append append_Nil2)
    with c have s: "?s = concat (butlast ts) @ ''(''" by simp
    then have "take (length (concat (butlast ts))) ?s = concat (butlast ts)" by simp
    with validated_prefix(1) [OF assms(1), of "length (concat (butlast ts))"]
    have "0 \<le> nesting (concat (butlast ts))" by simp
    moreover from s have "nesting ?s = nesting (concat (butlast ts)) + 1"
      by (simp add: nesting_append)
    ultimately show False using validated_prefix(2) [OF assms(1)] by simp
  qed
qed

lemma validated_insertTimes:
  assumes "validateInput input = Inr ()" "getArrayOfTokens input = Inr ts"
  shows "fixParenthesesMultiplication ts = insertTimes ts"
proof (cases "ts = []")
  case True
  then show ?thesis by (simp add: fixParenthesesMultiplication_Nil)
next
  case False
  from fixParentheses_insertTimes [OF False validated_tokens [OF assms False]] show ?thesis .
qed

text \<open>
  Claim C6. On the tokens of a validated input, \<^verbatim>\<open>fixParenthesesMultiplication\<close>
  inserts a \<^verbatim>\<open>*\<close> between every two neighbouring tokens that are \<^verbatim>\<open>)\<close> then
  \<^verbatim>\<open>(\<close>, a number then \<^verbatim>\<open>(\<close>, or \<^verbatim>\<open>)\<close> then a number, and changes nothing else.
  \<^verbatim>\<open>2(3)\<close>, \<^verbatim>\<open>(2)(3)\<close> and \<^verbatim>\<open>(2)3\<close> are 6, and \<^verbatim>\<open>(2)(3)(4)\<close> is 24.
\<close>

theorem implicit_multiplication:
  assumes "validateInput input = Inr ()" "getArrayOfTokens input = Inr tokenArray"
  shows "fixParenthesesMultiplication tokenArray = insertTimes tokenArray
    \<and> evaluateExpression ''2(3)'' = Inr (Fin 6)
    \<and> evaluateExpression ''(2)(3)'' = Inr (Fin 6)
    \<and> evaluateExpression ''(2)3'' = Inr (Fin 6)
    \<and> evaluateExpression ''(2)(3)(4)'' = Inr (Fin 24)"
  using validated_insertTimes [OF assms]
    eval_2_group_3 eval_group_2_group_3 eval_group_2_3 eval_three_groups
  by simp

theorem implicit_multiplication_witness:
  "fixParenthesesMultiplication [''2'', ''('', ''3'', '')'', ''('', ''4'', '')'', ''5''] =
     [''2'', ''*'', ''('', ''3'', '')'', ''*'', ''('', ''4'', '')'', ''*'', ''5'']"
proof -
  have v: "validateInput ''2(3)(4)5'' = Inr ()" by code_simp
  have g: "getArrayOfTokens ''2(3)(4)5'' =
    Inr [''2'', ''('', ''3'', '')'', ''('', ''4'', '')'', ''5'']" by code_simp
  have i: "insertTimes [''2'', ''('', ''3'', '')'', ''('', ''4'', '')'', ''5''] =
    [''2'', ''*'', ''('', ''3'', '')'', ''*'', ''('', ''4'', '')'', ''*'', ''5'']" by code_simp
  from implicit_multiplication [OF v g] i show ?thesis by simp
qed

text \<open>
  Claim C2, at the input \<^verbatim>\<open>5--3\<close>. The first \<^verbatim>\<open>-\<close> is followed by a \<^verbatim>\<open>-\<close> when the
  loop is at it, so it is left alone; the second is folded into \<^verbatim>\<open>-3\<close>. A standalone
  \<^verbatim>\<open>-\<close> is left in the normalized sequence and in the postfix sequence, and the
  evaluator's \<^verbatim>\<open>-\<close> branch computes the 8.
\<close>

theorem standalone_minus_remains:
  "getArrayOfTokens ''5--3'' = Inr [''5'', ''-'', ''-'', ''3'']
   \<and> fixNegativeNumbers (fixParenthesesMultiplication [''5'', ''-'', ''-'', ''3'']) =
       [''5'', ''-'', ''-3'']
   \<and> convertToPostfix ''5--3'' = Inr [''5'', ''-3'', ''-'']
   \<and> evaluateExpression ''5--3'' = Inr (Fin 8)"
  using tokens_5_minus_neg3 normal_5_minus_neg3 postfix_5_minus_neg3 eval_5_minus_neg3
  by simp

text \<open>
  Claim C2, amended. When every \<^verbatim>\<open>-\<close> of the token sequence is directly followed by a
  \<^verbatim>\<open>(\<close> or by a number, no token of the normalized sequence is \<^verbatim>\<open>-\<close>, and none of
  the postfix sequence: the evaluator's \<^verbatim>\<open>-\<close> branch is not executed.
\<close>

theorem no_standalone_minus:
  assumes "getArrayOfTokens input = Inr tokenArray" "minusFollowed tokenArray"
  shows "''-'' \<notin> set (fixNegativeNumbers (fixParenthesesMultiplication tokenArray))
    \<and> (\<forall>postfixArray. convertToPostfix input = Inr postfixArray \<longrightarrow> ''-'' \<notin> set postfixArray)"
proof -
  from assms(2) have n: "''-'' \<notin> set (fixNegativeNumbers (fixParenthesesMultiplication tokenArray))"
    by (simp add: fixNegativeNumbers_negFold negFold_no_minus minusFollowed_fixParentheses)
  have "''-'' \<notin> set postfixArray" if "convertToPostfix input = Inr postfixArray" for postfixArray
  proof -
    from that assms(1)
    have "postfixLoop (fixNegativeNumbers (fixParenthesesMultiplication tokenArray)) [] []
      = Inr postfixArray" by (simp add: convertToPostfix_def)
    from postfixLoop_set [OF this] n show ?thesis by auto
  qed
  with n show ?thesis by blast
qed

theorem no_standalone_minus_witness:
  "getArrayOfTokens ''10-3-(2)'' = Inr [''10'', ''-'', ''3'', ''-'', ''('', ''2'', '')'']
   \<and> ''-'' \<notin> set (fixNegativeNumbers (fixParenthesesMultiplication
        [''10'', ''-'', ''3'', ''-'', ''('', ''2'', '')'']))"
proof -
  have g: "getArrayOfTokens ''10-3-(2)'' = Inr [''10'', ''-'', ''3'', ''-'', ''('', ''2'', '')'']"
    by code_simp
  have m: "minusFollowed [''10'', ''-'', ''3'', ''-'', ''('', ''2'', '')'']" by code_simp
  from no_standalone_minus [OF g m] g show ?thesis by simp
qed

end
